theory Spec2Isabelle
  imports Complex_Main
begin

section \<open>The array abstraction consumed by the magnetism module\<close>

text \<open>
  The module \<^verbatim>\<open>py4vasp/calculation/_magnetism.py\<close> works on n-dimensional numeric
  arrays (numpy). An array is its shape together with its elements in row-major order,
  as numpy stores a C-contiguous array. Every array satisfies \<open>wf_array\<close>: the number
  of elements is the product of the shape. A shape may contain the extent 0 (an empty
  selection of steps keeps the extents of its other axes).

  The element type is a parameter: the source holds IEEE doubles, and the structural
  properties below hold for any element type with the operations named in each
  definition. Rounding of floating-point arithmetic is not modelled.
\<close>

record 'a ndarray =
  shape :: "nat list"
  elems :: "'a list"

definition wf_array :: "'a ndarray \<Rightarrow> bool" where
  "wf_array a = (length (elems a) = prod_list (shape a))"

definition ndim :: "'a ndarray \<Rightarrow> nat" where
  "ndim a = length (shape a)"

text \<open>All multi-indices of a shape, in row-major order, and the position of a
  multi-index in the element list.\<close>

fun indices :: "nat list \<Rightarrow> nat list list" where
  "indices [] = [[]]"
| "indices (n # sh) = concat (map (\<lambda>i. map ((#) i) (indices sh)) [0..<n])"

fun offset :: "nat list \<Rightarrow> nat list \<Rightarrow> nat" where
  "offset (n # sh) (i # idx) = i * prod_list sh + offset sh idx"
| "offset _ _ = 0"

definition in_bounds :: "nat list \<Rightarrow> nat list \<Rightarrow> bool" where
  "in_bounds sh idx = list_all2 (<) idx sh"

text \<open>\<open>elem_at a idx\<close> is the element \<open>a[idx]\<close> for a multi-index inside the shape; the
  operations below only read inside the shape, after their own checks have passed.
  \<open>build sh f\<close> is the array of shape \<open>sh\<close> whose element at \<open>idx\<close> is \<open>f idx\<close>.\<close>

definition elem_at :: "'a ndarray \<Rightarrow> nat list \<Rightarrow> 'a" where
  "elem_at a idx = elems a ! offset (shape a) idx"

definition build :: "nat list \<Rightarrow> (nat list \<Rightarrow> 'a) \<Rightarrow> 'a ndarray" where
  "build sh f = \<lparr>shape = sh, elems = map f (indices sh)\<rparr>"

subsection \<open>Errors\<close>

text \<open>The two user-facing errors of \<^verbatim>\<open>py4vasp.exception\<close>, with their messages, and
  the errors of Python and numpy that the module lets through.\<close>

datatype error =
    IncorrectUsage string
  | NoData string
  | IndexError
  | ValueError
  | AxisError
  | TypeError

subsection \<open>Basic indexing\<close>

text \<open>One entry of an index tuple: an integer, or \<^verbatim>\<open>slice(start, stop, step)\<close> where
  each part may be \<^verbatim>\<open>None\<close>.\<close>

datatype index = Index int | Slice "int option" "int option" "int option"

text \<open>The positions a slice selects on an axis of length \<open>n\<close>, in order
  (\<^verbatim>\<open>slice.indices\<close>: the end points are clamped to the axis, never rejected; a zero
  step is a \<^verbatim>\<open>ValueError\<close>).\<close>

definition slice_positions ::
  "int option \<Rightarrow> int option \<Rightarrow> int option \<Rightarrow> nat \<Rightarrow> error + nat list" where
  "slice_positions start stop step n =
    (let st = (case step of None \<Rightarrow> 1 | Some s \<Rightarrow> s) in
     if st = 0 then Inl ValueError
     else
       let len = int n;
           lower = (if st < 0 then - 1 else 0);
           upper = (if st < 0 then len - 1 else len);
           clamp = (\<lambda>v. if v < 0 then max (v + len) lower else min v upper);
           b = (case start of None \<Rightarrow> (if st < 0 then upper else lower) | Some v \<Rightarrow> clamp v);
           e = (case stop of None \<Rightarrow> (if st < 0 then lower else upper) | Some v \<Rightarrow> clamp v);
           cnt = (if st < 0
                  then (if e < b then (b - e - 1) div (- st) + 1 else 0)
                  else (if b < e then (e - b - 1) div st + 1 else 0))
       in Inr (map (\<lambda>k. nat (b + int k * st)) [0..<nat cnt]))"

text \<open>An integer index on an axis of length \<open>n\<close>: negative values count from the end;
  outside \<open>-n \<le> i < n\<close> numpy raises \<^verbatim>\<open>IndexError\<close>.\<close>

definition int_position :: "nat \<Rightarrow> int \<Rightarrow> error + nat" where
  "int_position n i =
    (if - int n \<le> i \<and> i < int n then Inr (nat (if i < 0 then i + int n else i))
     else Inl IndexError)"

text \<open>The shape of \<^verbatim>\<open>a[i0, i1, ...]\<close>: an integer removes its axis, a slice keeps it
  with the number of selected positions, the remaining axes are kept. The entries are
  checked in order.\<close>

fun index_shape :: "nat list \<Rightarrow> index list \<Rightarrow> error + nat list" where
  "index_shape sh [] = Inr sh"
| "index_shape [] (i # ixs) = Inl IndexError"
| "index_shape (n # sh) (Index i # ixs) =
    (case int_position n i of Inl e \<Rightarrow> Inl e | Inr p \<Rightarrow> index_shape sh ixs)"
| "index_shape (n # sh) (Slice start stop step # ixs) =
    (case slice_positions start stop step n of
       Inl e \<Rightarrow> Inl e
     | Inr ps \<Rightarrow> (case index_shape sh ixs of Inl e \<Rightarrow> Inl e | Inr sh' \<Rightarrow> Inr (length ps # sh')))"

text \<open>The multi-index of the indexed array that a multi-index of the result reads.\<close>

fun index_source :: "nat list \<Rightarrow> index list \<Rightarrow> nat list \<Rightarrow> nat list" where
  "index_source (n # sh) (Index i # ixs) idx =
    (case int_position n i of Inl e \<Rightarrow> [] | Inr p \<Rightarrow> p # index_source sh ixs idx)"
| "index_source (n # sh) (Slice start stop step # ixs) (j # idx) =
    (case slice_positions start stop step n of
       Inl e \<Rightarrow> []
     | Inr ps \<Rightarrow> (ps ! j) # index_source sh ixs idx)"
| "index_source sh ixs idx = idx"

definition getitem :: "'a ndarray \<Rightarrow> index list \<Rightarrow> error + 'a ndarray" where
  "getitem a ixs =
    (if ndim a < length ixs then Inl IndexError
     else case index_shape (shape a) ixs of
       Inl e \<Rightarrow> Inl e
     | Inr sh' \<Rightarrow> Inr (build sh' (\<lambda>idx. elem_at a (index_source (shape a) ixs idx))))"

subsection \<open>Constructors, axis moves, reductions, addition\<close>

definition zeros :: "nat list \<Rightarrow> 'a::zero ndarray" where
  "zeros sh = build sh (\<lambda>idx. 0)"

definition zeros_like :: "'a::zero ndarray \<Rightarrow> 'a ndarray" where
  "zeros_like a = zeros (shape a)"

text \<open>An axis number as numpy normalises it: \<open>-ndim \<le> axis < ndim\<close>, negative values
  count from the end, anything else is an \<^verbatim>\<open>AxisError\<close>.\<close>

definition normalize_axis :: "nat \<Rightarrow> int \<Rightarrow> error + nat" where
  "normalize_axis nd axis =
    (if - int nd \<le> axis \<and> axis < int nd then Inr (nat (if axis < 0 then axis + int nd else axis))
     else Inl AxisError)"

definition remove_at :: "nat \<Rightarrow> 'b list \<Rightarrow> 'b list" where
  "remove_at k xs = take k xs @ drop (Suc k) xs"

definition insert_at :: "nat \<Rightarrow> 'b \<Rightarrow> 'b list \<Rightarrow> 'b list" where
  "insert_at k x xs = take k xs @ x # drop k xs"

text \<open>\<^verbatim>\<open>np.moveaxis(a, source, destination)\<close> for one source and one destination:
  the other axes keep their order, and the result's axis \<open>destination\<close> is the axis
  \<open>source\<close> of \<open>a\<close>.\<close>

definition moveaxis :: "'a ndarray \<Rightarrow> int \<Rightarrow> int \<Rightarrow> error + 'a ndarray" where
  "moveaxis a source destination =
    (case normalize_axis (ndim a) source of
       Inl e \<Rightarrow> Inl e
     | Inr s \<Rightarrow>
        (case normalize_axis (ndim a) destination of
           Inl e \<Rightarrow> Inl e
         | Inr d \<Rightarrow>
            Inr (build (insert_at d (shape a ! s) (remove_at s (shape a)))
                   (\<lambda>idx. elem_at a (insert_at s (idx ! d) (remove_at d idx))))))"

text \<open>\<^verbatim>\<open>np.sum(a, axis=axis)\<close>: the axis is removed and every element of the result is
  the sum along it. The elements form a monoid here; the order in which numpy adds
  doubles, and its rounding, are not modelled.\<close>

definition np_sum :: "'a::monoid_add ndarray \<Rightarrow> int \<Rightarrow> error + 'a ndarray" where
  "np_sum a axis =
    (case normalize_axis (ndim a) axis of
       Inl e \<Rightarrow> Inl e
     | Inr k \<Rightarrow>
        Inr (build (remove_at k (shape a))
               (\<lambda>idx. sum_list (map (\<lambda>j. elem_at a (insert_at k j idx)) [0..<shape a ! k]))))"

text \<open>\<^verbatim>\<open>a + b\<close> with numpy's broadcasting: the shapes are aligned at their last axes,
  an extent 1 is stretched, a missing leading axis is added, and any other mismatch is
  a \<^verbatim>\<open>ValueError\<close>.\<close>

fun broadcast_rev :: "nat list \<Rightarrow> nat list \<Rightarrow> nat list option" where
  "broadcast_rev [] ys = Some ys"
| "broadcast_rev xs [] = Some xs"
| "broadcast_rev (x # xs) (y # ys) =
    (if x = y \<or> y = 1 then map_option ((#) x) (broadcast_rev xs ys)
     else if x = 1 then map_option ((#) y) (broadcast_rev xs ys)
     else None)"

definition broadcast_shapes :: "nat list \<Rightarrow> nat list \<Rightarrow> nat list option" where
  "broadcast_shapes sa sb = map_option rev (broadcast_rev (rev sa) (rev sb))"

definition broadcast_source :: "nat list \<Rightarrow> nat list \<Rightarrow> nat list" where
  "broadcast_source sh idx =
    map2 (\<lambda>n i. if n = 1 then 0 else i) sh (drop (length idx - length sh) idx)"

definition np_add :: "'a::plus ndarray \<Rightarrow> 'a ndarray \<Rightarrow> error + 'a ndarray" where
  "np_add a b =
    (case broadcast_shapes (shape a) (shape b) of
       None \<Rightarrow> Inl ValueError
     | Some sh \<Rightarrow>
        Inr (build sh (\<lambda>idx. elem_at a (broadcast_source (shape a) idx)
                             + elem_at b (broadcast_source (shape b) idx))))"


section \<open>The magnetism module\<close>

subsection \<open>Text of the error messages and of the report\<close>

fun show_nat :: "nat \<Rightarrow> string" where
  "show_nat n =
    (if n < 10 then [char_of (48 + n)]
     else show_nat (n div 10) @ [char_of (48 + n mod 10)])"

definition show_int :: "int \<Rightarrow> string" where
  "show_int i = (if i < 0 then CHR ''-'' # show_nat (nat (- i)) else show_nat (nat i))"

definition show_opt_int :: "int option \<Rightarrow> string" where
  "show_opt_int v = (case v of None \<Rightarrow> ''None'' | Some i \<Rightarrow> show_int i)"

text \<open>\<^verbatim>\<open>str\<close> of a step selector, as an f-string renders it.\<close>

fun show_index :: "index \<Rightarrow> string" where
  "show_index (Index i) = show_int i"
| "show_index (Slice start stop step) =
    ''slice('' @ show_opt_int start @ '', '' @ show_opt_int stop @ '', ''
      @ show_opt_int step @ '')''"

text \<open>\<^verbatim>\<open>separator.join(parts)\<close>.\<close>

fun join :: "string \<Rightarrow> string list \<Rightarrow> string" where
  "join sep [] = []"
| "join sep [x] = x"
| "join sep (x # y # ys) = x @ sep @ join sep (y # ys)"

text \<open>\<^verbatim>\<open>f"{moment:.2f}"\<close>: the value in fixed-point notation with two decimals, rounded
  to the nearest hundredth, a tie to the even one, with a minus sign for a negative
  value. The argument is the exact value of the double.\<close>

definition round_half_even :: "real \<Rightarrow> nat" where
  "round_half_even x =
    (let q = nat \<lfloor>x\<rfloor>; r = x - real q in
     if r < 1 / 2 then q else if 1 / 2 < r then Suc q else if even q then q else Suc q)"

definition format_2f :: "real \<Rightarrow> string" where
  "format_2f x =
    (let h = round_half_even (\<bar>x\<bar> * 100) in
     (if x < 0 then [CHR ''-''] else []) @ show_nat (h div 100) @ [CHR ''.'']
       @ [char_of (48 + h mod 100 div 10), char_of (48 + h mod 10)])"

subsection \<open>The object\<close>

text \<open>The raw data: \<open>spin_moments\<close> with the axes (step, component, atom, orbital),
  and \<open>orbital_moments\<close>, which is absent (\<^verbatim>\<open>is_none()\<close>) when VASP has not computed it.
  The object holds the raw data and the step selector \<^verbatim>\<open>_steps\<close> that the slicing mixin
  sets: one integer or one slice. The decorators of the methods (data access,
  documentation) and the view of the structure belong to other modules; \<^verbatim>\<open>to_view\<close> and
  the rescaling of the arrows, which compute with norms of doubles, are left out.\<close>

record 'a raw_magnetism =
  spin_moments :: "'a ndarray"
  orbital_moments :: "'a ndarray option"

record 'a magnetism =
  raw_data :: "'a raw_magnetism"
  steps :: index

text \<open>\<^verbatim>\<open>spin_moments.shape[k]\<close>: indexing the shape tuple outside its length is an
  \<^verbatim>\<open>IndexError\<close>.\<close>

definition shape_axis :: "'a ndarray \<Rightarrow> nat \<Rightarrow> error + nat" where
  "shape_axis a k = (if k < ndim a then Inr (shape a ! k) else Inl IndexError)"

definition only_charge :: "'a magnetism \<Rightarrow> error + bool" where
  "only_charge m =
    (case shape_axis (spin_moments (raw_data m)) 1 of Inl e \<Rightarrow> Inl e | Inr c \<Rightarrow> Inr (c = 1))"

definition spin_polarized :: "'a magnetism \<Rightarrow> error + bool" where
  "spin_polarized m =
    (case shape_axis (spin_moments (raw_data m)) 1 of Inl e \<Rightarrow> Inl e | Inr c \<Rightarrow> Inr (c = 2))"

definition noncollinear :: "'a magnetism \<Rightarrow> error + bool" where
  "noncollinear m =
    (case shape_axis (spin_moments (raw_data m)) 1 of Inl e \<Rightarrow> Inl e | Inr c \<Rightarrow> Inr (c = 4))"

definition has_orbital_moments :: "'a magnetism \<Rightarrow> bool" where
  "has_orbital_moments m = (orbital_moments (raw_data m) \<noteq> None)"

subsection \<open>Validation\<close>

definition steps_message :: "index \<Rightarrow> string" where
  "steps_message s =
    ''Error reading the magnetic moments. Please check if the steps `'' @ show_index s
      @ ''` are properly formatted and within the boundaries.''"

text \<open>\<^verbatim>\<open>_raise_error_if_steps_out_of_bounds\<close>: the selector is tried on a probe array of
  zeros as long as the step axis; an \<^verbatim>\<open>IndexError\<close> inside the \<^verbatim>\<open>try\<close> (also the one of
  \<^verbatim>\<open>shape[0]\<close> on an array without axes) becomes \<^verbatim>\<open>IncorrectUsage\<close>; any other error
  passes through.\<close>

definition raise_error_if_steps_out_of_bounds :: "'a::zero magnetism \<Rightarrow> error + unit" where
  "raise_error_if_steps_out_of_bounds m =
    (case (case shape_axis (spin_moments (raw_data m)) 0 of
             Inl e \<Rightarrow> Inl e
           | Inr n \<Rightarrow> getitem (zeros [n] :: 'a ndarray) [steps m]) of
       Inl IndexError \<Rightarrow> Inl (IncorrectUsage (steps_message (steps m)))
     | Inl e \<Rightarrow> Inl e
     | Inr probe \<Rightarrow> Inr ())"

definition selection_message :: "string \<Rightarrow> string" where
  "selection_message selection =
    ''The selection '' @ selection @ '' is incorrect. Please check if it is spelled ''
      @ ''correctly. Possible choices are total, spin, or orbital.''"

definition no_orbital_message :: string where
  "no_orbital_message =
    ''There are no orbital moments in the VASP output. Please make sure that you ''
      @ ''run the calculation with LORBMOM = T and LSORBIT = T.''"

definition raise_error_if_selection_not_available ::
  "'a magnetism \<Rightarrow> string \<Rightarrow> error + unit" where
  "raise_error_if_selection_not_available m selection =
    (if selection \<notin> set [''spin'', ''orbital'', ''total'']
     then Inl (IncorrectUsage (selection_message selection))
     else if selection \<noteq> ''orbital'' \<or> has_orbital_moments m then Inr ()
     else Inl (NoData no_orbital_message))"

subsection \<open>Charges and moments\<close>

definition charges :: "'a::zero magnetism \<Rightarrow> error + 'a ndarray" where
  "charges m =
    (case raise_error_if_steps_out_of_bounds m of
       Inl e \<Rightarrow> Inl e
     | Inr u \<Rightarrow> getitem (spin_moments (raw_data m)) [steps m, Index 0])"

definition collinear_moments :: "'a magnetism \<Rightarrow> error + 'a ndarray" where
  "collinear_moments m = getitem (spin_moments (raw_data m)) [steps m, Index 1]"

text \<open>The slice \<^verbatim>\<open>1:\<close> of the component axis.\<close>

definition from_one :: index where
  "from_one = Slice (Some 1) None None"

definition noncollinear_moments ::
  "'a::{zero,plus} magnetism \<Rightarrow> string \<Rightarrow> error + 'a ndarray" where
  "noncollinear_moments m selection =
    (case getitem (spin_moments (raw_data m)) [steps m, from_one] of
       Inl e \<Rightarrow> Inl e
     | Inr spin \<Rightarrow>
        (case (case orbital_moments (raw_data m) of
                 Some orb \<Rightarrow> getitem orb [steps m, from_one]
               | None \<Rightarrow> Inr (zeros_like spin)) of
           Inl e \<Rightarrow> Inl e
         | Inr orbital \<Rightarrow>
            (case (if selection = ''orbital'' then Inr orbital
                   else if selection = ''spin'' then Inr spin
                   else np_add spin orbital) of
               Inl e \<Rightarrow> Inl e
             | Inr moms \<Rightarrow> moveaxis moms (if ndim moms = 4 then 1 else 0) (- 1))))"

text \<open>\<^verbatim>\<open>moments(selection)\<close>; the absent value \<^verbatim>\<open>None\<close> is \<open>None\<close>.\<close>

definition moments ::
  "'a::{zero,plus} magnetism \<Rightarrow> string \<Rightarrow> error + 'a ndarray option" where
  "moments m selection =
    (case raise_error_if_steps_out_of_bounds m of
       Inl e \<Rightarrow> Inl e
     | Inr u \<Rightarrow>
        (case raise_error_if_selection_not_available m selection of
           Inl e \<Rightarrow> Inl e
         | Inr u' \<Rightarrow>
            (case only_charge m of
               Inl e \<Rightarrow> Inl e
             | Inr oc \<Rightarrow>
                if oc then Inr None
                else
                  (case spin_polarized m of
                     Inl e \<Rightarrow> Inl e
                   | Inr sp \<Rightarrow>
                      if sp then map_sum id Some (collinear_moments m)
                      else map_sum id Some (noncollinear_moments m selection)))))"

definition sum_over_orbitals ::
  "'a::monoid_add ndarray option \<Rightarrow> bool \<Rightarrow> error + 'a ndarray option" where
  "sum_over_orbitals quantity is_vector =
    (case quantity of
       None \<Rightarrow> Inr None
     | Some q \<Rightarrow>
        if is_vector then map_sum id Some (np_sum q (- 2))
        else map_sum id Some (np_sum q (- 1)))"

definition total_charges :: "'a::monoid_add magnetism \<Rightarrow> error + 'a ndarray option" where
  "total_charges m =
    (case charges m of Inl e \<Rightarrow> Inl e | Inr c \<Rightarrow> sum_over_orbitals (Some c) False)"

definition total_moments ::
  "'a::monoid_add magnetism \<Rightarrow> string \<Rightarrow> error + 'a ndarray option" where
  "total_moments m selection =
    (case moments m selection of
       Inl e \<Rightarrow> Inl e
     | Inr mo \<Rightarrow>
        (case noncollinear m of Inl e \<Rightarrow> Inl e | Inr nc \<Rightarrow> sum_over_orbitals mo nc))"

subsection \<open>Dictionary and report\<close>

text \<open>A dictionary is the list of its entries in insertion order; the value of
  \<^verbatim>\<open>"moments"\<close> may be \<^verbatim>\<open>None\<close>.\<close>

definition add_spin_and_orbital_moments ::
  "'a magnetism \<Rightarrow> error + (string \<times> 'a ndarray option) list" where
  "add_spin_and_orbital_moments m =
    (case orbital_moments (raw_data m) of
       None \<Rightarrow> Inr []
     | Some orb \<Rightarrow>
        (case getitem (spin_moments (raw_data m)) [steps m, from_one] of
           Inl e \<Rightarrow> Inl e
         | Inr spin \<Rightarrow>
            (case getitem orb [steps m, from_one] of
               Inl e \<Rightarrow> Inl e
             | Inr orbital \<Rightarrow>
                (case moveaxis spin (if ndim spin = 4 then 1 else 0) (- 1) of
                   Inl e \<Rightarrow> Inl e
                 | Inr s \<Rightarrow>
                    (case moveaxis orbital (if ndim spin = 4 then 1 else 0) (- 1) of
                       Inl e \<Rightarrow> Inl e
                     | Inr ob \<Rightarrow>
                        Inr [(''spin_moments'', Some s), (''orbital_moments'', Some ob)])))))"

definition to_dict ::
  "'a::{zero,plus} magnetism \<Rightarrow> error + (string \<times> 'a ndarray option) list" where
  "to_dict m =
    (case charges m of
       Inl e \<Rightarrow> Inl e
     | Inr c \<Rightarrow>
        (case moments m ''total'' of
           Inl e \<Rightarrow> Inl e
         | Inr mo \<Rightarrow>
            (case add_spin_and_orbital_moments m of
               Inl e \<Rightarrow> Inl e
             | Inr extra \<Rightarrow> Inr ([(''charges'', Some c), (''moments'', mo)] @ extra))))"

text \<open>\<^verbatim>\<open>moments_to_string\<close> of \<^verbatim>\<open>__str__\<close>: the values of a vector, each with two
  decimals, joined by a space. Iterating an array without axes and formatting an element
  that is itself an array are \<^verbatim>\<open>TypeError\<close>s.\<close>

definition moments_to_string :: "real ndarray \<Rightarrow> error + string" where
  "moments_to_string vec =
    (if ndim vec = 0 then Inl TypeError
     else if ndim vec = 1 then Inr (join '' '' (map format_2f (elems vec)))
     else if shape vec ! 0 = 0 then Inr []
     else Inl TypeError)"

text \<open>The elements \<^verbatim>\<open>a[0], a[1], ...\<close> that iterating an array yields.\<close>

definition rows :: "'a ndarray \<Rightarrow> error + 'a ndarray list" where
  "rows a =
    (if ndim a = 0 then Inl TypeError
     else Inr (map (\<lambda>i. build (tl (shape a)) (\<lambda>idx. elem_at a (i # idx))) [0..<shape a ! 0]))"

text \<open>The first error of a list of results, or all the values.\<close>

fun collect :: "(error + 'b) list \<Rightarrow> error + 'b list" where
  "collect [] = Inr []"
| "collect (Inl e # rs) = Inl e"
| "collect (Inr x # rs) = (case collect rs of Inl e \<Rightarrow> Inl e | Inr xs \<Rightarrow> Inr (x # xs))"

definition separator :: string where
  "separator = '' '' @ [CHR 0x5C, CHR 0x0A] @ ''         ''"

definition to_str :: "real magnetism \<Rightarrow> error + string" where
  "to_str m =
    (case total_moments m ''total'' of
       Inl e \<Rightarrow> Inl e
     | Inr None \<Rightarrow> Inr ''not spin polarized''
     | Inr (Some moments_last_step) \<Rightarrow>
        if ndim moments_last_step = 1
        then (case moments_to_string moments_last_step of
                Inl e \<Rightarrow> Inl e
              | Inr line \<Rightarrow> Inr (''MAGMOM = '' @ line))
        else
          (case rows moments_last_step of
             Inl e \<Rightarrow> Inl e
           | Inr vecs \<Rightarrow>
              (case collect (map moments_to_string vecs) of
                 Inl e \<Rightarrow> Inl e
               | Inr lines \<Rightarrow> Inr (''MAGMOM = '' @ join separator lines))))"

subsection \<open>The raw-data contract and sample data\<close>

text \<open>The contract of the raw-data layer: \<open>spin_moments\<close> has the four axes (step,
  component, atom, orbital), and \<open>orbital_moments\<close>, when present, has the same shape.\<close>

definition valid_raw :: "'a raw_magnetism \<Rightarrow> bool" where
  "valid_raw r =
    (wf_array (spin_moments r) \<and> ndim (spin_moments r) = 4 \<and>
     (case orbital_moments r of
        None \<Rightarrow> True
      | Some orb \<Rightarrow> wf_array orb \<and> shape orb = shape (spin_moments r)))"

text \<open>The reading of "the selector lies within the bounds of the step axis" that the
  specification uses: an integer addresses an existing step, and the end points of a
  slice, where given, are positions of the axis.\<close>

definition spec_steps_within_bounds :: "nat \<Rightarrow> index \<Rightarrow> bool" where
  "spec_steps_within_bounds n s =
    (case s of
       Index i \<Rightarrow> - int n \<le> i \<and> i < int n
     | Slice start stop step \<Rightarrow>
         (case start of None \<Rightarrow> True | Some v \<Rightarrow> - int n \<le> v \<and> v \<le> int n) \<and>
         (case stop of None \<Rightarrow> True | Some v \<Rightarrow> - int n \<le> v \<and> v \<le> int n))"

text \<open>Sample data: one step, two atoms, two orbitals; with one component (charge
  only), two (collinear) and four (noncollinear).\<close>

definition sample_charge_only :: "int magnetism" where
  "sample_charge_only =
    \<lparr>raw_data = \<lparr>spin_moments = \<lparr>shape = [1, 1, 2, 2], elems = [1, 2, 3, 4]\<rparr>,
                 orbital_moments = None\<rparr>,
     steps = Index 0\<rparr>"

definition sample_charge_only_orbital :: "int magnetism" where
  "sample_charge_only_orbital =
    \<lparr>raw_data = \<lparr>spin_moments = \<lparr>shape = [1, 1, 2, 2], elems = [1, 2, 3, 4]\<rparr>,
                 orbital_moments = Some \<lparr>shape = [1, 1, 2, 2], elems = [0, 0, 0, 0]\<rparr>\<rparr>,
     steps = Index 0\<rparr>"

definition sample_collinear :: "int magnetism" where
  "sample_collinear =
    \<lparr>raw_data = \<lparr>spin_moments = \<lparr>shape = [1, 2, 2, 2], elems = [1, 2, 3, 4, 5, 6, 7, 8]\<rparr>,
                 orbital_moments = None\<rparr>,
     steps = Index 0\<rparr>"

definition sample_noncollinear :: "int magnetism" where
  "sample_noncollinear =
    \<lparr>raw_data =
       \<lparr>spin_moments = \<lparr>shape = [1, 4, 2, 2],
                         elems = [1, 2, 3, 4, 5, 6, 7, 8, 9, 10, 11, 12, 13, 14, 15, 16]\<rparr>,
        orbital_moments = None\<rparr>,
     steps = Index 0\<rparr>"

definition sample_noncollinear_orbital :: "int magnetism" where
  "sample_noncollinear_orbital =
    \<lparr>raw_data =
       \<lparr>spin_moments = \<lparr>shape = [1, 4, 2, 2],
                         elems = [1, 2, 3, 4, 5, 6, 7, 8, 9, 10, 11, 12, 13, 14, 15, 16]\<rparr>,
        orbital_moments = Some \<lparr>shape = [1, 4, 2, 2],
                         elems = [0, 0, 0, 0, 100, 200, 300, 400, 500, 600, 700, 800,
                                  900, 1000, 1100, 1200]\<rparr>\<rparr>,
     steps = Index 0\<rparr>"

text \<open>The values the moments are read from: an element of the raw spin moments, an
  element of the raw orbital moments (zero where they are absent), and their
  combination for a selection.\<close>

definition spin_value :: "'a magnetism \<Rightarrow> nat list \<Rightarrow> 'a" where
  "spin_value m idx = elem_at (spin_moments (raw_data m)) idx"

definition orbital_value :: "'a::zero magnetism \<Rightarrow> nat list \<Rightarrow> 'a" where
  "orbital_value m idx =
    (case orbital_moments (raw_data m) of None \<Rightarrow> 0 | Some orb \<Rightarrow> elem_at orb idx)"

definition selected_value :: "'a::{zero,plus} magnetism \<Rightarrow> string \<Rightarrow> nat list \<Rightarrow> 'a" where
  "selected_value m selection idx =
    (if selection = ''orbital'' then orbital_value m idx
     else if selection = ''spin'' then spin_value m idx
     else spin_value m idx + orbital_value m idx)"

text \<open>Whether a result is the error \<open>IncorrectUsage\<close>, and the errors that numpy and
  Python raise by themselves.\<close>

definition raises_incorrect_usage :: "error + 'b \<Rightarrow> bool" where
  "raises_incorrect_usage r = (case r of Inl (IncorrectUsage msg) \<Rightarrow> True | _ \<Rightarrow> False)"

definition library_error :: "error \<Rightarrow> bool" where
  "library_error e = (e = IndexError \<or> e = ValueError \<or> e = AxisError \<or> e = TypeError)"

text \<open>An integer selector outside \<open>-n \<le> i < n\<close> for the step axis of \<open>spin_moments\<close>.\<close>

definition index_out_of_range :: "'a magnetism \<Rightarrow> bool" where
  "index_out_of_range m =
    (case steps m of
       Index i \<Rightarrow> i < - int (hd (shape (spin_moments (raw_data m))))
                  \<or> int (hd (shape (spin_moments (raw_data m)))) \<le> i
     | Slice start stop step \<Rightarrow> False)"

definition sample_index_beyond :: "int magnetism" where
  "sample_index_beyond = sample_collinear\<lparr>steps := Index 5\<rparr>"

definition sample_slice_beyond :: "int magnetism" where
  "sample_slice_beyond = sample_collinear\<lparr>steps := Slice (Some 5) (Some 10) None\<rparr>"

definition sample_noncollinear_orbital_slice :: "int magnetism" where
  "sample_noncollinear_orbital_slice =
    sample_noncollinear_orbital\<lparr>steps := Slice None None None\<rparr>"

text \<open>The doubles nearest to 1.234 and to 0.005, as exact values, and collinear data of
  one step, three atoms and one orbital whose moments are 1.234, -0.005 and 0.5.\<close>

definition double_1_234 :: real where
  "double_1_234 = 694680242521899 / 562949953421312"

definition double_0_005 :: real where
  "double_0_005 = 5764607523034235 / 1152921504606846976"

definition sample_report :: "real magnetism" where
  "sample_report =
    \<lparr>raw_data = \<lparr>spin_moments = \<lparr>shape = [1, 2, 3, 1],
                                   elems = [8, 8, 8, double_1_234, - double_0_005, 1 / 2]\<rparr>,
                 orbital_moments = None\<rparr>,
     steps = Index 0\<rparr>"

section \<open>Properties\<close>

lemma length_indices: "length (indices sh) = prod_list sh"
proof (induction sh)
  case Nil show ?case by simp
next
  case (Cons n sh)
  have "length (concat (map (\<lambda>i. map ((#) i) (indices sh)) [0..<n])) = n * prod_list sh"
    by (induction n) (simp_all add: Cons)
  then show ?case by simp
qed

lemma set_indices: "set (indices sh) = {idx. in_bounds sh idx}"
proof (induction sh)
  case Nil show ?case by (auto simp: in_bounds_def)
next
  case (Cons n sh)
  show ?case
    by (auto simp: in_bounds_def Cons[unfolded in_bounds_def, simplified set_eq_iff, simplified] list_all2_Cons2)
qed

lemma in_bounds_Cons: "in_bounds (n # sh) idx = (\<exists>i rest. idx = i # rest \<and> i < n \<and> in_bounds sh rest)"
  by (auto simp: in_bounds_def list_all2_Cons2)

lemma in_bounds_Nil: "in_bounds [] idx = (idx = [])"
  by (simp add: in_bounds_def)

lemma offset_less: "in_bounds sh idx \<Longrightarrow> offset sh idx < prod_list sh"
proof (induction sh arbitrary: idx)
  case Nil then show ?case by (simp add: in_bounds_def)
next
  case (Cons n sh)
  from Cons.prems obtain i rest where idx: "idx = i # rest" and i: "i < n" and r: "in_bounds sh rest"
    by (auto simp: in_bounds_Cons)
  have "offset sh rest < prod_list sh" using Cons.IH r by simp
  then have "i * prod_list sh + offset sh rest < (i + 1) * prod_list sh" by simp
  also have "\<dots> \<le> n * prod_list sh" using i by (intro mult_le_mono1) simp
  finally show ?case by (simp add: idx)
qed

lemma concat_blocks: "concat (map (\<lambda>i. [i * m ..< Suc i * m]) [0..<k]) = [0..<k * m]"
proof (induction k)
  case 0 show ?case by simp
next
  case (Suc k)
  have "[0..<k * m] @ [k * m..<m + k * m] = [0..<m + k * m]"
    by (metis le_add2 upt_add_eq_append add.commute zero_le)
  then show ?case using Suc by simp
qed

lemma map_offset_indices: "map (offset sh) (indices sh) = [0..<prod_list sh]"
proof (induction sh)
  case Nil show ?case by simp
next
  case (Cons n sh)
  have step: "map (\<lambda>idx. offset (n # sh) (i # idx)) (indices sh) = [i * prod_list sh ..< Suc i * prod_list sh]" for i
  proof -
    have "map (\<lambda>idx. offset (n # sh) (i # idx)) (indices sh) = map (\<lambda>k. i * prod_list sh + k) (map (offset sh) (indices sh))"
      by simp
    also have "\<dots> = map (\<lambda>k. i * prod_list sh + k) [0..<prod_list sh]" by (simp only: Cons)
    also have "\<dots> = [i * prod_list sh ..< Suc i * prod_list sh]"
      by (simp add: map_add_upt add.commute)
    finally show ?thesis .
  qed
  have "map (offset (n # sh)) (indices (n # sh)) = concat (map (\<lambda>i. map (\<lambda>idx. offset (n # sh) (i # idx)) (indices sh)) [0..<n])"
    by (simp add: map_concat comp_def del: offset.simps)
  also have "\<dots> = concat (map (\<lambda>i. [i * prod_list sh ..< Suc i * prod_list sh]) [0..<n])"
    by (simp only: step)
  also have "\<dots> = [0..<n * prod_list sh]" by (rule concat_blocks)
  finally show ?case by simp
qed

lemma nth_indices_offset: "in_bounds sh idx \<Longrightarrow> indices sh ! offset sh idx = idx"
proof -
  assume ib: "in_bounds sh idx"
  then have lt: "offset sh idx < prod_list sh" by (rule offset_less)
  have mem: "idx \<in> set (indices sh)" using ib by (simp add: set_indices)
  then obtain k where k: "k < length (indices sh)" and nk: "indices sh ! k = idx"
    by (auto simp: in_set_conv_nth)
  have "map (offset sh) (indices sh) ! k = [0..<prod_list sh] ! k"
    by (simp only: map_offset_indices)
  then have "offset sh idx = k" using k nk by (simp add: length_indices)
  then show ?thesis using nk by simp
qed

lemma shape_build [simp]: "shape (build sh f) = sh"
  by (simp add: build_def)

lemma ndim_build [simp]: "ndim (build sh f) = length sh"
  by (simp add: ndim_def)

lemma elem_at_build: "in_bounds sh idx \<Longrightarrow> elem_at (build sh f) idx = f idx"
  by (simp add: elem_at_def build_def offset_less length_indices nth_indices_offset)

lemma build_cong: "(\<And>idx. in_bounds sh idx \<Longrightarrow> f idx = g idx) \<Longrightarrow> build sh f = build sh g"
  by (simp add: build_def set_indices)

lemma build_elem_at: "wf_array a \<Longrightarrow> build (shape a) (elem_at a) = a"
proof -
  assume wf: "wf_array a"
  have "map (elem_at a) (indices (shape a)) = map ((!) (elems a)) (map (offset (shape a)) (indices (shape a)))"
    by (simp add: elem_at_def comp_def)
  also have "\<dots> = map ((!) (elems a)) [0..<length (elems a)]"
    using wf by (simp only: map_offset_indices wf_array_def)
  also have "\<dots> = elems a" by (rule map_nth)
  finally show ?thesis by (simp add: build_def)
qed

lemma wf_build: "wf_array (build sh f)"
  by (simp add: wf_array_def build_def length_indices)

lemma map_plus_map2: "map (\<lambda>x. f x + g x) xs = map2 (+) (map f xs) (map g xs)"
  by (induction xs) simp_all

lemma elems_build_elem_at: "wf_array a \<Longrightarrow> map (elem_at a) (indices (shape a)) = elems a"
proof -
  assume "wf_array a"
  then have "elems (build (shape a) (elem_at a)) = elems a" by (simp only: build_elem_at)
  then show ?thesis by (simp add: build_def)
qed

lemma elems_build_map2:
  "wf_array a \<Longrightarrow> wf_array b \<Longrightarrow> shape b = shape a \<Longrightarrow>
   elems (build (shape a) (\<lambda>idx. elem_at a idx + elem_at b idx)) = map2 (+) (elems a) (elems b)"
proof -
  assume wa: "wf_array a" and wb: "wf_array b" and sh: "shape b = shape a"
  have b: "map (elem_at b) (indices (shape a)) = elems b"
    using elems_build_elem_at[OF wb] sh by simp
  show ?thesis
    by (simp add: build_def map_plus_map2 elems_build_elem_at[OF wa] b)
qed

lemma slice_positions_zero_step: "slice_positions a b (Some 0) n = Inl ValueError"
  unfolding slice_positions_def Let_def by simp

lemma slice_positions_nonzero:
  assumes "c \<noteq> Some 0"
  shows "\<exists>ps. slice_positions a b c n = Inr ps"
proof -
  have eq: "((case c of None \<Rightarrow> 1 | Some s \<Rightarrow> s) = (0::int)) = False"
    using assms by (cases c) simp_all
  show ?thesis unfolding slice_positions_def Let_def eq if_False by (rule exI) (rule refl)
qed

lemma slice_positions_Inl: "slice_positions a b c n = Inl e \<Longrightarrow> e = ValueError \<and> c = Some 0"
proof (cases "c = Some 0")
  case True
  assume "slice_positions a b c n = Inl e"
  then show ?thesis using True by (simp add: slice_positions_zero_step)
next
  case False
  assume h: "slice_positions a b c n = Inl e"
  from slice_positions_nonzero[OF False] obtain ps where "slice_positions a b c n = Inr ps" by blast
  with h show ?thesis by simp
qed

lemma slice_from_one: "slice_positions (Some 1) None None n = Inr [1..<n]"
proof -
  have m: "map (\<lambda>k. nat (1 + int k * 1)) [0..<n - 1] = [1..<n]"
  proof -
    have "map (\<lambda>k. nat (1 + int k * 1)) [0..<n - 1] = map Suc [0..<n - 1]"
      by (rule map_cong) simp_all
    also have "\<dots> = [Suc 0..<Suc (n - 1)]" by (simp only: map_Suc_upt)
    also have "\<dots> = [1..<n]" by (cases n) simp_all
    finally show ?thesis .
  qed
  have unf: "slice_positions (Some 1) None None n =
     Inr (map (\<lambda>k. nat (min 1 (int n) + int k * 1))
       [0..<nat (if min 1 (int n) < int n then (int n - min 1 (int n) - 1) div 1 + 1 else 0)])"
    unfolding slice_positions_def Let_def by simp
  show ?thesis
  proof (cases "n = 0")
    case True
    then show ?thesis unfolding unf by simp
  next
    case False
    then have mn: "min 1 (int n) = 1" by simp
    have cnt: "nat (if (1::int) < int n then (int n - 1 - 1) div 1 + 1 else 0) = n - 1"
      using False by auto
    show ?thesis unfolding unf mn cnt m ..
  qed
qed

lemma int_position_Inr_less: "int_position n i = Inr p \<Longrightarrow> p < n"
  by (auto simp: int_position_def split: if_splits)

lemma int_position_Inl: "int_position n i = Inl e \<Longrightarrow> e = IndexError"
  by (auto simp: int_position_def split: if_splits)

lemma shape_axis_0: "shape a = n # rest \<Longrightarrow> shape_axis a 0 = Inr n"
  by (simp add: shape_axis_def ndim_def)

lemma shape_axis_1: "shape a = n # c # rest \<Longrightarrow> shape_axis a 1 = Inr c"
  by (simp add: shape_axis_def ndim_def)

lemma probe_Index:
  "getitem (zeros [ns] :: 'a::zero ndarray) [Index i] =
     (case int_position ns i of Inl e \<Rightarrow> Inl e | Inr p \<Rightarrow> Inr (build [] (\<lambda>idx. elem_at (zeros [ns] :: 'a ndarray) (index_source [ns] [Index i] idx))))"
  by (simp add: getitem_def zeros_def split: sum.splits)

lemma steps_check_Index:
  assumes "shape (spin_moments (raw_data m)) = ns # rest" "steps m = Index i"
  shows "raise_error_if_steps_out_of_bounds m =
     (case int_position ns i of Inl e \<Rightarrow> Inl (IncorrectUsage (steps_message (Index i))) | Inr p \<Rightarrow> Inr ())"
proof (cases "int_position ns i")
  case (Inl e)
  then have "int_position ns i = Inl IndexError" using int_position_Inl by blast
  then show ?thesis
    by (simp add: raise_error_if_steps_out_of_bounds_def shape_axis_0[OF assms(1)] assms(2) probe_Index)
next
  case (Inr p)
  then show ?thesis
    by (simp add: raise_error_if_steps_out_of_bounds_def shape_axis_0[OF assms(1)] assms(2) probe_Index)
qed

lemma steps_check_Slice:
  assumes "shape (spin_moments (raw_data m)) = ns # rest" "steps m = Slice a b c"
  shows "raise_error_if_steps_out_of_bounds m = (if c = Some 0 then Inl ValueError else Inr ())"
proof (cases "c = Some 0")
  case True
  then show ?thesis
    by (simp add: raise_error_if_steps_out_of_bounds_def shape_axis_0[OF assms(1)] assms(2)
        getitem_def zeros_def slice_positions_zero_step)
next
  case False
  from slice_positions_nonzero[OF False] obtain ps where "slice_positions a b c ns = Inr ps" by blast
  then show ?thesis using False
    by (simp add: raise_error_if_steps_out_of_bounds_def shape_axis_0[OF assms(1)] assms(2)
        getitem_def zeros_def)
qed

lemma getitem_step_component:
  assumes "shape a = ns # nc # rest" "int_position ns i = Inr p" "c < nc"
  shows "getitem a [Index i, Index (int c)] = Inr (build rest (\<lambda>idx. elem_at a (p # c # idx)))"
proof -
  have c: "int_position nc (int c) = Inr c" using assms(3) by (simp add: int_position_def)
  show ?thesis using assms(1,2) c by (simp add: getitem_def ndim_def)
qed

lemma getitem_slice_component:
  assumes "shape a = ns # nc # rest" "slice_positions s e st ns = Inr ps" "c < nc"
  shows "getitem a [Slice s e st, Index (int c)] =
         Inr (build (length ps # rest) (\<lambda>idx. elem_at a ((ps ! hd idx) # c # tl idx)))"
proof -
  have c: "int_position nc (int c) = Inr c" using assms(3) by (simp add: int_position_def)
  have "build (length ps # rest) (\<lambda>idx. elem_at a (index_source (shape a) [Slice s e st, Index (int c)] idx))
      = build (length ps # rest) (\<lambda>idx. elem_at a ((ps ! hd idx) # c # tl idx))"
  proof (rule build_cong)
    fix idx assume "in_bounds (length ps # rest) idx"
    then obtain j r where "idx = j # r" unfolding in_bounds_Cons by blast
    then show "elem_at a (index_source (shape a) [Slice s e st, Index (int c)] idx)
             = elem_at a ((ps ! hd idx) # c # tl idx)"
      by (simp add: assms(1,2) c)
  qed
  then show ?thesis using assms(1,2) c by (simp add: getitem_def ndim_def)
qed

lemma getitem_step_from_one:
  assumes "shape a = ns # nc # rest" "int_position ns i = Inr p"
  shows "getitem a [Index i, from_one] =
         Inr (build ((nc - 1) # rest) (\<lambda>idx. elem_at a (p # Suc (hd idx) # tl idx)))"
proof -
  have "build ((nc - 1) # rest) (\<lambda>idx. elem_at a (index_source (shape a) [Index i, from_one] idx))
      = build ((nc - 1) # rest) (\<lambda>idx. elem_at a (p # Suc (hd idx) # tl idx))"
  proof (rule build_cong)
    fix idx assume "in_bounds ((nc - 1) # rest) idx"
    then obtain j r where "idx = j # r" "j < nc - 1" unfolding in_bounds_Cons by blast
    then show "elem_at a (index_source (shape a) [Index i, from_one] idx)
             = elem_at a (p # Suc (hd idx) # tl idx)"
      by (simp add: assms from_one_def slice_from_one)
  qed
  then show ?thesis using assms by (simp add: getitem_def ndim_def from_one_def slice_from_one)
qed

lemma getitem_slice_from_one:
  assumes "shape a = ns # nc # rest" "slice_positions s e st ns = Inr ps"
  shows "getitem a [Slice s e st, from_one] =
         Inr (build (length ps # (nc - 1) # rest)
                (\<lambda>idx. elem_at a ((ps ! hd idx) # Suc (hd (tl idx)) # tl (tl idx))))"
proof -
  have "build (length ps # (nc - 1) # rest) (\<lambda>idx. elem_at a (index_source (shape a) [Slice s e st, from_one] idx))
      = build (length ps # (nc - 1) # rest) (\<lambda>idx. elem_at a ((ps ! hd idx) # Suc (hd (tl idx)) # tl (tl idx)))"
  proof (rule build_cong)
    fix idx assume "in_bounds (length ps # (nc - 1) # rest) idx"
    then obtain j k r where "idx = j # k # r" "k < nc - 1" unfolding in_bounds_Cons by blast
    then show "elem_at a (index_source (shape a) [Slice s e st, from_one] idx)
             = elem_at a ((ps ! hd idx) # Suc (hd (tl idx)) # tl (tl idx))"
      by (simp add: assms from_one_def slice_from_one)
  qed
  then show ?thesis using assms by (simp add: getitem_def ndim_def from_one_def slice_from_one)
qed

lemma in_bounds_length: "in_bounds sh idx \<Longrightarrow> length idx = length sh"
  by (simp add: in_bounds_def list_all2_lengthD)

lemma broadcast_rev_same: "broadcast_rev xs xs = Some xs"
  by (induction xs) simp_all

lemma broadcast_shapes_same: "broadcast_shapes sh sh = Some sh"
  by (simp add: broadcast_shapes_def broadcast_rev_same)

lemma broadcast_source_same: "in_bounds sh idx \<Longrightarrow> broadcast_source sh idx = idx"
proof -
  assume ib: "in_bounds sh idx"
  have "list_all2 (<) idx sh \<Longrightarrow> map2 (\<lambda>n i. if n = 1 then 0 else i) sh idx = idx"
    by (induction idx sh rule: list_all2_induct) auto
  then show ?thesis using ib in_bounds_length[OF ib]
    by (simp add: broadcast_source_def in_bounds_def)
qed

lemma np_add_build:
  "np_add (build sh f) (build sh g) = Inr (build sh (\<lambda>idx. f idx + g idx))"
proof -
  have "build sh (\<lambda>idx. elem_at (build sh f) (broadcast_source sh idx)
                     + elem_at (build sh g) (broadcast_source sh idx))
      = build sh (\<lambda>idx. f idx + g idx)"
    by (rule build_cong) (simp add: broadcast_source_same elem_at_build)
  then show ?thesis by (simp add: np_add_def broadcast_shapes_same)
qed

lemma np_add_same_shape:
  assumes "wf_array a" "wf_array b" "shape b = shape a"
  shows "np_add a b = Inr \<lparr>shape = shape a, elems = map2 (+) (elems a) (elems b)\<rparr>"
proof -
  have "np_add (build (shape a) (elem_at a)) (build (shape a) (elem_at b))
      = Inr (build (shape a) (\<lambda>idx. elem_at a idx + elem_at b idx))"
    by (rule np_add_build)
  moreover have "build (shape a) (elem_at b) = b" using build_elem_at[OF assms(2)] assms(3) by simp
  moreover have "build (shape a) (\<lambda>idx. elem_at a idx + elem_at b idx)
      = \<lparr>shape = shape a, elems = map2 (+) (elems a) (elems b)\<rparr>"
    using elems_build_map2[OF assms] by (simp add: build_def)
  ultimately show ?thesis using build_elem_at[OF assms(1)] by simp
qed

lemma in_bounds3: "in_bounds [a, b, c] idx = (\<exists>i j k. idx = [i, j, k] \<and> i < a \<and> j < b \<and> k < c)"
  by (auto simp: in_bounds_Cons in_bounds_Nil)

lemma in_bounds4: "in_bounds [a, b, c, d] idx = (\<exists>i j k l. idx = [i, j, k, l] \<and> i < a \<and> j < b \<and> k < c \<and> l < d)"
  by (auto simp: in_bounds_Cons in_bounds_Nil)

lemma in_bounds2: "in_bounds [a, b] idx = (\<exists>i j. idx = [i, j] \<and> i < a \<and> j < b)"
  by (auto simp: in_bounds_Cons in_bounds_Nil)

lemma in_bounds1: "in_bounds [a] idx = (\<exists>i. idx = [i] \<and> i < a)"
  by (auto simp: in_bounds_Cons in_bounds_Nil)

lemma moveaxis_build3:
  "moveaxis (build [c, na, no] f) 0 (- 1) =
     Inr (build [na, no, c] (\<lambda>idx. f [idx ! 2, idx ! 0, idx ! 1]))"
proof -
  have "build [na, no, c] (\<lambda>idx. elem_at (build [c, na, no] f) (insert_at 0 (idx ! 2) (remove_at 2 idx)))
      = build [na, no, c] (\<lambda>idx. f [idx ! 2, idx ! 0, idx ! 1])"
  proof (rule build_cong)
    fix idx assume "in_bounds [na, no, c] idx"
    then obtain i j d where idx: "idx = [i, j, d]" and b: "i < na" "j < no" "d < c"
      unfolding in_bounds3 by blast
    have ib: "in_bounds [c, na, no] [d, i, j]" unfolding in_bounds3 using b by blast
    have ins: "insert_at 0 (idx ! 2) (remove_at 2 idx) = [d, i, j]"
      by (simp add: idx insert_at_def remove_at_def numeral_2_eq_2)
    show "elem_at (build [c, na, no] f) (insert_at 0 (idx ! 2) (remove_at 2 idx))
        = f [idx ! 2, idx ! 0, idx ! 1]"
      unfolding ins elem_at_build[OF ib] by (simp add: idx)
  qed
  moreover have "normalize_axis (ndim (build [c, na, no] f)) 0 = Inr 0"
      "normalize_axis (ndim (build [c, na, no] f)) (- 1) = Inr 2"
    by (simp_all add: normalize_axis_def)
  moreover have "insert_at 2 (shape (build [c, na, no] f) ! 0) (remove_at 0 (shape (build [c, na, no] f))) = [na, no, c]"
    by (simp add: insert_at_def remove_at_def numeral_2_eq_2)
  ultimately show ?thesis
    by (simp only: moveaxis_def sum.case)
qed

lemma moveaxis_build4:
  "moveaxis (build [k, c, na, no] f) 1 (- 1) =
     Inr (build [k, na, no, c] (\<lambda>idx. f [idx ! 0, idx ! 3, idx ! 1, idx ! 2]))"
proof -
  have "build [k, na, no, c] (\<lambda>idx. elem_at (build [k, c, na, no] f) (insert_at 1 (idx ! 3) (remove_at 3 idx)))
      = build [k, na, no, c] (\<lambda>idx. f [idx ! 0, idx ! 3, idx ! 1, idx ! 2])"
  proof (rule build_cong)
    fix idx assume "in_bounds [k, na, no, c] idx"
    then obtain s i j d where idx: "idx = [s, i, j, d]" and b: "s < k" "i < na" "j < no" "d < c"
      unfolding in_bounds4 by blast
    have ib: "in_bounds [k, c, na, no] [s, d, i, j]" unfolding in_bounds4 using b by blast
    have ins: "insert_at 1 (idx ! 3) (remove_at 3 idx) = [s, d, i, j]"
      by (simp add: idx insert_at_def remove_at_def numeral_3_eq_3)
    show "elem_at (build [k, c, na, no] f) (insert_at 1 (idx ! 3) (remove_at 3 idx))
        = f [idx ! 0, idx ! 3, idx ! 1, idx ! 2]"
      unfolding ins elem_at_build[OF ib] by (simp add: idx numeral_3_eq_3 numeral_2_eq_2)
  qed
  moreover have "normalize_axis (ndim (build [k, c, na, no] f)) 1 = Inr 1"
      "normalize_axis (ndim (build [k, c, na, no] f)) (- 1) = Inr 3"
    by (simp_all add: normalize_axis_def)
  moreover have "insert_at 3 (shape (build [k, c, na, no] f) ! 1) (remove_at 1 (shape (build [k, c, na, no] f))) = [k, na, no, c]"
    by (simp add: insert_at_def remove_at_def numeral_3_eq_3)
  ultimately show ?thesis
    by (simp only: moveaxis_def sum.case)
qed

lemma np_sum_build2:
  "np_sum (build [na, no] f) (- 1) =
     Inr (build [na] (\<lambda>idx. sum_list (map (\<lambda>j. f [idx ! 0, j]) [0..<no])))"
proof -
  have "build [na] (\<lambda>idx. sum_list (map (\<lambda>j. elem_at (build [na, no] f) (insert_at 1 j idx)) [0..<no]))
      = build [na] (\<lambda>idx. sum_list (map (\<lambda>j. f [idx ! 0, j]) [0..<no]))"
  proof (rule build_cong, rule arg_cong[where f = sum_list], rule map_cong[OF refl])
    fix idx j assume "in_bounds [na] idx" and "j \<in> set [0..<no]"
    then obtain i where idx: "idx = [i]" and b: "i < na" "j < no"
      unfolding in_bounds1 by auto
    have ib: "in_bounds [na, no] [i, j]" unfolding in_bounds2 using b by blast
    have ins: "insert_at 1 j idx = [i, j]" by (simp add: idx insert_at_def)
    show "elem_at (build [na, no] f) (insert_at 1 j idx) = f [idx ! 0, j]"
      unfolding ins elem_at_build[OF ib] by (simp add: idx)
  qed
  moreover have "normalize_axis (ndim (build [na, no] f)) (- 1) = Inr 1"
    by (simp add: normalize_axis_def)
  moreover have "remove_at 1 (shape (build [na, no] f)) = [na]" "shape (build [na, no] f) ! 1 = no"
    by (simp_all add: remove_at_def)
  ultimately show ?thesis
    by (simp only: np_sum_def sum.case)
qed

lemma np_sum_build3:
  "np_sum (build [k, na, no] f) (- 1) =
     Inr (build [k, na] (\<lambda>idx. sum_list (map (\<lambda>j. f [idx ! 0, idx ! 1, j]) [0..<no])))"
proof -
  have "build [k, na] (\<lambda>idx. sum_list (map (\<lambda>j. elem_at (build [k, na, no] f) (insert_at 2 j idx)) [0..<no]))
      = build [k, na] (\<lambda>idx. sum_list (map (\<lambda>j. f [idx ! 0, idx ! 1, j]) [0..<no]))"
  proof (rule build_cong, rule arg_cong[where f = sum_list], rule map_cong[OF refl])
    fix idx j assume "in_bounds [k, na] idx" and "j \<in> set [0..<no]"
    then obtain s i where idx: "idx = [s, i]" and b: "s < k" "i < na" "j < no"
      unfolding in_bounds2 by auto
    have ib: "in_bounds [k, na, no] [s, i, j]" unfolding in_bounds3 using b by blast
    have ins: "insert_at 2 j idx = [s, i, j]" by (simp add: idx insert_at_def)
    show "elem_at (build [k, na, no] f) (insert_at 2 j idx) = f [idx ! 0, idx ! 1, j]"
      unfolding ins elem_at_build[OF ib] by (simp add: idx)
  qed
  moreover have "normalize_axis (ndim (build [k, na, no] f)) (- 1) = Inr 2"
    by (simp add: normalize_axis_def)
  moreover have "remove_at 2 (shape (build [k, na, no] f)) = [k, na]" "shape (build [k, na, no] f) ! 2 = no"
    by (simp_all add: remove_at_def numeral_2_eq_2)
  ultimately show ?thesis
    by (simp only: np_sum_def sum.case)
qed

lemma map_sum_Some_not_None: "map_sum id Some x \<noteq> Inr None"
  by (cases x) simp_all

lemma sum_over_orbitals_None: "(sum_over_orbitals q v = Inr None) = (q = None)"
  by (cases q) (simp_all add: sum_over_orbitals_def map_sum_Some_not_None)

lemma moments_unfold:
  assumes "raise_error_if_steps_out_of_bounds m = Inr ()"
      and "raise_error_if_selection_not_available m sel = Inr ()"
  shows "moments m sel =
     (case only_charge m of
        Inl e \<Rightarrow> Inl e
      | Inr oc \<Rightarrow>
          if oc then Inr None
          else (case spin_polarized m of
                  Inl e \<Rightarrow> Inl e
                | Inr sp \<Rightarrow>
                    if sp then map_sum id Some (collinear_moments m)
                    else map_sum id Some (noncollinear_moments m sel)))"
  by (simp add: moments_def assms)

lemma regime_cases:
  "(\<exists>e. only_charge m = Inl e \<and> spin_polarized m = Inl e \<and> noncollinear m = Inl e)
   \<or> (\<exists>c::nat. only_charge m = Inr (c = 1) \<and> spin_polarized m = Inr (c = 2) \<and> noncollinear m = Inr (c = 4))"
  by (cases "shape_axis (spin_moments (raw_data m)) 1")
     (auto simp: only_charge_def spin_polarized_def noncollinear_def)

lemma moments_None_iff:
  assumes "raise_error_if_steps_out_of_bounds m = Inr ()"
      and "raise_error_if_selection_not_available m sel = Inr ()"
  shows "(moments m sel = Inr None) = (only_charge m = Inr True)"
proof (cases "only_charge m")
  case (Inl e)
  then show ?thesis by (simp add: moments_unfold[OF assms])
next
  case (Inr oc)
  show ?thesis
  proof (cases oc)
    case True
    then show ?thesis using Inr by (simp add: moments_unfold[OF assms])
  next
    case False
    show ?thesis
    proof (cases "spin_polarized m")
      case (Inl e)
      then show ?thesis using Inr False by (simp add: moments_unfold[OF assms])
    next
      case sp: (Inr sp)
      then show ?thesis using Inr False
        by (simp add: moments_unfold[OF assms] map_sum_Some_not_None)
    qed
  qed
qed

text \<open>
  Claim C10. When the step check and the selection check pass, \<open>total_moments\<close> returns
  the absent value exactly when \<open>moments\<close> does, and that is exactly the charge-only
  regime: the summation over orbitals hands the absent value on and raises nothing.
\<close>

theorem total_moments_absent_iff_moments_absent:
  fixes m :: "'a::monoid_add magnetism"
  assumes "raise_error_if_steps_out_of_bounds m = Inr ()"
      and "raise_error_if_selection_not_available m sel = Inr ()"
  shows "(total_moments m sel = Inr None) = (moments m sel = Inr None)
       \<and> (moments m sel = Inr None) = (only_charge m = Inr True)
       \<and> (only_charge m = Inr True) = (total_moments m sel = Inr None)"
proof -
  have b: "(moments m sel = Inr None) = (only_charge m = Inr True)"
    by (rule moments_None_iff[OF assms])
  have a: "(total_moments m sel = Inr None) = (moments m sel = Inr None)"
  proof (cases "moments m sel")
    case (Inl e)
    then show ?thesis by (simp add: total_moments_def)
  next
    case (Inr mo)
    from regime_cases[of m] show ?thesis
    proof
      assume "\<exists>e. only_charge m = Inl e \<and> spin_polarized m = Inl e \<and> noncollinear m = Inl e"
      then obtain e where "only_charge m = Inl e" by blast
      then have "moments m sel = Inl e" by (simp add: moments_unfold[OF assms])
      with Inr show ?thesis by simp
    next
      assume "\<exists>c::nat. only_charge m = Inr (c = 1) \<and> spin_polarized m = Inr (c = 2) \<and> noncollinear m = Inr (c = 4)"
      then obtain c :: nat where "noncollinear m = Inr (c = 4)" by blast
      then show ?thesis using Inr by (simp add: total_moments_def sum_over_orbitals_None)
    qed
  qed
  show ?thesis using a b by simp
qed

text \<open>
  Claim C5, as the code has it. For charge-only data and a selector that passes the step
  check, \<open>moments\<close> returns the absent value for the selections total and spin, and for
  orbital when orbital moments are present; when they are absent the selection check,
  which runs before the regime is looked at, raises \<open>NoData\<close>.
\<close>

theorem charge_only_moments_absent_unless_orbital_missing:
  fixes m :: "'a::{zero,plus} magnetism"
  assumes "only_charge m = Inr True"
      and "raise_error_if_steps_out_of_bounds m = Inr ()"
  shows "moments m ''total'' = Inr None \<and> moments m ''spin'' = Inr None
       \<and> moments m ''orbital'' =
            (if has_orbital_moments m then Inr None else Inl (NoData no_orbital_message))"
  by (simp add: moments_def assms raise_error_if_selection_not_available_def)

lemma sample_charge_only_facts:
  "raise_error_if_steps_out_of_bounds sample_charge_only = Inr ()"
  "only_charge sample_charge_only = Inr True"
  "\<not> has_orbital_moments sample_charge_only"
  by (simp_all add: sample_charge_only_def steps_check_Index[where ns = 1 and rest = "[1, 2, 2]" and i = 0]
      int_position_def only_charge_def shape_axis_def ndim_def has_orbital_moments_def)

lemma sample_charge_only_orbital_facts:
  "raise_error_if_steps_out_of_bounds sample_charge_only_orbital = Inr ()"
  "only_charge sample_charge_only_orbital = Inr True"
  "has_orbital_moments sample_charge_only_orbital"
  by (simp_all add: sample_charge_only_orbital_def steps_check_Index[where ns = 1 and rest = "[1, 2, 2]" and i = 0]
      int_position_def only_charge_def shape_axis_def ndim_def has_orbital_moments_def)

text \<open>Charge-only data without orbital moments: the selection orbital raises \<open>NoData\<close>
  instead of returning the absent value.\<close>

theorem charge_only_orbital_selection_raises:
  "only_charge sample_charge_only = Inr True
   \<and> raise_error_if_steps_out_of_bounds sample_charge_only = Inr ()
   \<and> moments sample_charge_only ''orbital'' = Inl (NoData no_orbital_message)"
  by (simp add: sample_charge_only_facts moments_def raise_error_if_selection_not_available_def)

theorem charge_only_moments_absent_witness:
  "only_charge sample_charge_only_orbital = Inr True
   \<and> raise_error_if_steps_out_of_bounds sample_charge_only_orbital = Inr ()
   \<and> moments sample_charge_only_orbital ''total'' = Inr None
   \<and> moments sample_charge_only_orbital ''spin'' = Inr None
   \<and> moments sample_charge_only_orbital ''orbital'' = Inr None"
  using charge_only_moments_absent_unless_orbital_missing[OF sample_charge_only_orbital_facts(2,1)]
    sample_charge_only_orbital_facts
  by (simp only: if_True simp_thms)

theorem total_moments_absent_witness:
  "raise_error_if_steps_out_of_bounds sample_charge_only = Inr ()
   \<and> raise_error_if_selection_not_available sample_charge_only ''total'' = Inr ()
   \<and> total_moments sample_charge_only ''total'' = Inr None
   \<and> moments sample_charge_only ''total'' = Inr None
   \<and> only_charge sample_charge_only = Inr True"
proof -
  have s: "raise_error_if_selection_not_available sample_charge_only ''total'' = Inr ()"
    by (simp add: raise_error_if_selection_not_available_def)
  from total_moments_absent_iff_moments_absent[OF sample_charge_only_facts(1) s]
  show ?thesis using sample_charge_only_facts(1,2) s by blast
qed

lemma valid_raw_shape:
  assumes "valid_raw r"
  obtains ns nc na no where "shape (spin_moments r) = [ns, nc, na, no]"
proof -
  from assms have "length (shape (spin_moments r)) = 4" by (simp add: valid_raw_def ndim_def)
  then obtain ns nc na no where "shape (spin_moments r) = [ns, nc, na, no]"
    by (auto simp: length_Suc_conv numeral_eq_Suc)
  then show ?thesis ..
qed

lemma valid_raw_orbital:
  "valid_raw r \<Longrightarrow> orbital_moments r = Some orb \<Longrightarrow> shape orb = shape (spin_moments r)"
  by (simp add: valid_raw_def)

lemma steps_ok_cases:
  assumes "shape (spin_moments (raw_data m)) = ns # rest"
      and "raise_error_if_steps_out_of_bounds m = Inr ()"
  obtains (Index) i p where "steps m = Index i" "int_position ns i = Inr p"
        | (Slice) a b c ps where "steps m = Slice a b c" "slice_positions a b c ns = Inr ps"
proof (cases "steps m")
  case (Index i)
  with assms steps_check_Index[OF assms(1) Index] obtain p where "int_position ns i = Inr p"
    by (cases "int_position ns i") simp_all
  with Index show ?thesis by (rule that(1))
next
  case (Slice a b c)
  with assms steps_check_Slice[OF assms(1) Slice] have "c \<noteq> Some 0" by (auto split: if_splits)
  from slice_positions_nonzero[OF this] obtain ps where "slice_positions a b c ns = Inr ps" by blast
  with Slice show ?thesis by (rule that(2))
qed

lemma build_if: "build sh (\<lambda>idx. if c then f idx else g idx) = (if c then build sh f else build sh g)"
  by simp

lemma selected_parts:
  fixes m :: "'a::{zero,plus} magnetism"
  assumes spin: "spin = build sh (\<lambda>idx. spin_value m (g idx))"
      and orb: "orbital = build sh (\<lambda>idx. orbital_value m (g idx))"
  shows "(if sel = ''orbital'' then Inr orbital else if sel = ''spin'' then Inr spin
          else np_add spin orbital) = Inr (build sh (\<lambda>idx. selected_value m sel (g idx)))"
  by (simp add: spin orb np_add_build selected_value_def)

lemma orbital_part_Index:
  fixes m :: "'a::{zero,plus} magnetism"
  assumes sh: "shape (spin_moments (raw_data m)) = [ns, nc, na, no]"
      and vo: "\<And>orb. orbital_moments (raw_data m) = Some orb \<Longrightarrow> shape orb = [ns, nc, na, no]"
      and p: "int_position ns i = Inr p"
      and spin: "spin = build [nc - 1, na, no] f"
  shows "(case orbital_moments (raw_data m) of
            Some orb \<Rightarrow> getitem orb [Index i, from_one]
          | None \<Rightarrow> Inr (zeros_like spin))
       = Inr (build [nc - 1, na, no] (\<lambda>idx. orbital_value m (p # Suc (hd idx) # tl idx)))"
proof (cases "orbital_moments (raw_data m)")
  case None
  then show ?thesis by (simp add: zeros_like_def zeros_def spin orbital_value_def)
next
  case (Some orb)
  from getitem_step_from_one[OF vo[OF Some] p] Some show ?thesis
    by (simp add: orbital_value_def)
qed

lemma orbital_part_Slice:
  fixes m :: "'a::{zero,plus} magnetism"
  assumes sh: "shape (spin_moments (raw_data m)) = [ns, nc, na, no]"
      and vo: "\<And>orb. orbital_moments (raw_data m) = Some orb \<Longrightarrow> shape orb = [ns, nc, na, no]"
      and ps: "slice_positions a b c ns = Inr ps"
      and spin: "spin = build [length ps, nc - 1, na, no] f"
  shows "(case orbital_moments (raw_data m) of
            Some orb \<Rightarrow> getitem orb [Slice a b c, from_one]
          | None \<Rightarrow> Inr (zeros_like spin))
       = Inr (build [length ps, nc - 1, na, no]
               (\<lambda>idx. orbital_value m ((ps ! hd idx) # Suc (hd (tl idx)) # tl (tl idx))))"
proof (cases "orbital_moments (raw_data m)")
  case None
  then show ?thesis by (simp add: zeros_like_def zeros_def spin orbital_value_def)
next
  case (Some orb)
  from getitem_slice_from_one[OF vo[OF Some] ps] Some show ?thesis
    by (simp add: orbital_value_def)
qed

lemma noncollinear_moments_Index:
  fixes m :: "'a::{zero,plus} magnetism"
  assumes sh: "shape (spin_moments (raw_data m)) = [ns, 4, na, no]"
      and vo: "\<And>orb. orbital_moments (raw_data m) = Some orb \<Longrightarrow> shape orb = [ns, 4, na, no]"
      and st: "steps m = Index i" and p: "int_position ns i = Inr p"
  shows "noncollinear_moments m sel =
     Inr (build [na, no, 3] (\<lambda>idx. selected_value m sel [p, Suc (idx ! 2), idx ! 0, idx ! 1]))"
proof -
  define spin where "spin = build [4 - 1, na, no] (\<lambda>idx. spin_value m (p # Suc (hd idx) # tl idx))"
  define orbital where "orbital = build [4 - 1, na, no] (\<lambda>idx. orbital_value m (p # Suc (hd idx) # tl idx))"
  have g1: "getitem (spin_moments (raw_data m)) [steps m, from_one] = Inr spin"
    unfolding st spin_def spin_value_def by (rule getitem_step_from_one[OF sh p])
  have g2: "(case orbital_moments (raw_data m) of
            Some orb \<Rightarrow> getitem orb [steps m, from_one]
          | None \<Rightarrow> Inr (zeros_like spin)) = Inr orbital"
    unfolding st orbital_def by (rule orbital_part_Index[OF sh vo p spin_def])
  have g3: "(if sel = ''orbital'' then Inr orbital else if sel = ''spin'' then Inr spin
          else np_add spin orbital)
       = Inr (build [3, na, no] (\<lambda>idx. selected_value m sel (p # Suc (hd idx) # tl idx)))"
    using selected_parts[OF spin_def orbital_def, of sel] by simp
  have g4: "moveaxis (build [3, na, no] (\<lambda>idx. selected_value m sel (p # Suc (hd idx) # tl idx))) 0 (- 1)
       = Inr (build [na, no, 3] (\<lambda>idx. selected_value m sel [p, Suc (idx ! 2), idx ! 0, idx ! 1]))"
    by (simp add: moveaxis_build3)
  show ?thesis
    unfolding noncollinear_moments_def g1 g2 g3 sum.case using g4 by simp
qed

lemma noncollinear_moments_Slice:
  fixes m :: "'a::{zero,plus} magnetism"
  assumes sh: "shape (spin_moments (raw_data m)) = [ns, 4, na, no]"
      and vo: "\<And>orb. orbital_moments (raw_data m) = Some orb \<Longrightarrow> shape orb = [ns, 4, na, no]"
      and st: "steps m = Slice a b c" and ps: "slice_positions a b c ns = Inr ps"
  shows "noncollinear_moments m sel =
     Inr (build [length ps, na, no, 3]
            (\<lambda>idx. selected_value m sel [ps ! (idx ! 0), Suc (idx ! 3), idx ! 1, idx ! 2]))"
proof -
  define spin where "spin = build [length ps, 4 - 1, na, no]
      (\<lambda>idx. spin_value m ((ps ! hd idx) # Suc (hd (tl idx)) # tl (tl idx)))"
  define orbital where "orbital = build [length ps, 4 - 1, na, no]
      (\<lambda>idx. orbital_value m ((ps ! hd idx) # Suc (hd (tl idx)) # tl (tl idx)))"
  have g1: "getitem (spin_moments (raw_data m)) [steps m, from_one] = Inr spin"
    unfolding st spin_def spin_value_def by (rule getitem_slice_from_one[OF sh ps])
  have g2: "(case orbital_moments (raw_data m) of
            Some orb \<Rightarrow> getitem orb [steps m, from_one]
          | None \<Rightarrow> Inr (zeros_like spin)) = Inr orbital"
    unfolding st orbital_def by (rule orbital_part_Slice[OF sh vo ps spin_def])
  have g3: "(if sel = ''orbital'' then Inr orbital else if sel = ''spin'' then Inr spin
          else np_add spin orbital)
       = Inr (build [length ps, 3, na, no]
            (\<lambda>idx. selected_value m sel ((ps ! hd idx) # Suc (hd (tl idx)) # tl (tl idx))))"
    using selected_parts[OF spin_def orbital_def, of sel] by simp
  have g4: "moveaxis (build [length ps, 3, na, no]
            (\<lambda>idx. selected_value m sel ((ps ! hd idx) # Suc (hd (tl idx)) # tl (tl idx)))) 1 (- 1)
       = Inr (build [length ps, na, no, 3]
            (\<lambda>idx. selected_value m sel [ps ! (idx ! 0), Suc (idx ! 3), idx ! 1, idx ! 2]))"
    by (simp add: moveaxis_build4)
  show ?thesis
    unfolding noncollinear_moments_def g1 g2 g3 sum.case using g4 by simp
qed

lemma selection_check_ok:
  "sel \<in> {''spin'', ''total''} \<or> (sel = ''orbital'' \<and> has_orbital_moments m) \<Longrightarrow>
   raise_error_if_selection_not_available m sel = Inr ()"
  by (auto simp: raise_error_if_selection_not_available_def)

lemma selection_check_no_orbital:
  "\<not> has_orbital_moments m \<Longrightarrow>
   raise_error_if_selection_not_available m ''orbital'' = Inl (NoData no_orbital_message)"
  by (simp add: raise_error_if_selection_not_available_def)

lemma regime_of_shape:
  assumes "shape (spin_moments (raw_data m)) = ns # nc # rest"
  shows "only_charge m = Inr (nc = 1)" "spin_polarized m = Inr (nc = 2)" "noncollinear m = Inr (nc = 4)"
  using shape_axis_1[OF assms]
  by (simp_all add: only_charge_def spin_polarized_def noncollinear_def)

lemma moments_noncollinear:
  fixes m :: "'a::{zero,plus} magnetism"
  assumes "shape (spin_moments (raw_data m)) = ns # 4 # rest"
      and "raise_error_if_steps_out_of_bounds m = Inr ()"
      and "raise_error_if_selection_not_available m sel = Inr ()"
  shows "moments m sel = map_sum id Some (noncollinear_moments m sel)"
  by (simp add: moments_unfold[OF assms(2,3)] regime_of_shape[OF assms(1)])

lemma moments_collinear:
  fixes m :: "'a::{zero,plus} magnetism"
  assumes "shape (spin_moments (raw_data m)) = ns # 2 # rest"
      and "raise_error_if_steps_out_of_bounds m = Inr ()"
      and "raise_error_if_selection_not_available m sel = Inr ()"
  shows "moments m sel = map_sum id Some (collinear_moments m)"
  by (simp add: moments_unfold[OF assms(2,3)] regime_of_shape[OF assms(1)])

lemma moments_no_orbital:
  fixes m :: "'a::{zero,plus} magnetism"
  assumes "raise_error_if_steps_out_of_bounds m = Inr ()" "\<not> has_orbital_moments m"
  shows "moments m ''orbital'' = Inl (NoData no_orbital_message)"
  by (simp add: moments_def assms selection_check_no_orbital)

text \<open>The closed form of \<open>moments\<close> on noncollinear data, for both kinds of selector.\<close>

lemma moments_noncollinear_closed:
  fixes m :: "'a::{zero,plus} magnetism"
  assumes sh: "shape (spin_moments (raw_data m)) = [ns, 4, na, no]"
      and vo: "\<And>orb. orbital_moments (raw_data m) = Some orb \<Longrightarrow> shape orb = [ns, 4, na, no]"
      and ok: "raise_error_if_steps_out_of_bounds m = Inr ()"
      and sel: "raise_error_if_selection_not_available m sel = Inr ()"
  obtains sh' g where
    "moments m sel = Inr (Some (build sh' (\<lambda>idx. selected_value m sel (g idx))))"
    "\<And>s. noncollinear_moments m s = Inr (build sh' (\<lambda>idx. selected_value m s (g idx)))"
proof -
  from sh ok show ?thesis
  proof (cases rule: steps_ok_cases)
    case (Index i p)
    have n: "\<And>s. noncollinear_moments m s =
       Inr (build [na, no, 3] (\<lambda>idx. selected_value m s [p, Suc (idx ! 2), idx ! 0, idx ! 1]))"
      by (rule noncollinear_moments_Index[OF sh vo Index])
    show ?thesis
      by (rule that[of "[na, no, 3]" "\<lambda>idx. [p, Suc (idx ! 2), idx ! 0, idx ! 1]"])
         (simp_all add: moments_noncollinear[OF sh ok sel] n)
  next
    case (Slice a b c ps)
    have n: "\<And>s. noncollinear_moments m s =
       Inr (build [length ps, na, no, 3]
         (\<lambda>idx. selected_value m s [ps ! (idx ! 0), Suc (idx ! 3), idx ! 1, idx ! 2]))"
      by (rule noncollinear_moments_Slice[OF sh vo Slice])
    show ?thesis
      by (rule that[of "[length ps, na, no, 3]"
            "\<lambda>idx. [ps ! (idx ! 0), Suc (idx ! 3), idx ! 1, idx ! 2]"])
         (simp_all add: moments_noncollinear[OF sh ok sel] n)
  qed
qed

lemma shape_of_noncollinear:
  assumes "valid_raw (raw_data m)" "noncollinear m = Inr True"
  obtains ns na no where "shape (spin_moments (raw_data m)) = [ns, 4, na, no]"
proof -
  from assms(1) obtain ns nc na no where s: "shape (spin_moments (raw_data m)) = [ns, nc, na, no]"
    by (rule valid_raw_shape)
  with assms(2) have "nc = 4" by (simp add: regime_of_shape(3)[OF s])
  with s show ?thesis using that by simp
qed

text \<open>
  Claim C7. For noncollinear data without orbital moments and a selector that passes the
  step check, the total selection returns the array of the spin selection (the orbital
  part is an array of zeros of the same shape), and the orbital selection raises
  \<open>NoData\<close> with the advice to rerun VASP with LORBMOM and LSORBIT.
\<close>

theorem noncollinear_without_orbital_moments:
  fixes m :: "'a::monoid_add magnetism"
  assumes "valid_raw (raw_data m)"
      and "noncollinear m = Inr True"
      and "\<not> has_orbital_moments m"
      and "raise_error_if_steps_out_of_bounds m = Inr ()"
  shows "(\<exists>s. moments m ''spin'' = Inr (Some s) \<and> moments m ''total'' = Inr (Some s))
       \<and> moments m ''orbital'' = Inl (NoData
            (''There are no orbital moments in the VASP output. Please make sure that you ''
             @ ''run the calculation with LORBMOM = T and LSORBIT = T.''))"
proof -
  from assms(1,2) obtain ns na no where sh: "shape (spin_moments (raw_data m)) = [ns, 4, na, no]"
    by (rule shape_of_noncollinear)
  have none: "orbital_moments (raw_data m) = None"
    using assms(3) by (simp add: has_orbital_moments_def)
  have vo: "\<And>orb. orbital_moments (raw_data m) = Some orb \<Longrightarrow> shape orb = [ns, 4, na, no]"
    by (simp add: none)
  have sel: "raise_error_if_selection_not_available m s = Inr ()"
    if "s \<in> {''spin'', ''total''}" for s
    using that by (auto intro: selection_check_ok)
  from sh vo assms(4) sel[of "''total''"] obtain sh' g where
    n: "\<And>s. noncollinear_moments m s = Inr (build sh' (\<lambda>idx. selected_value m s (g idx)))"
    by (rule moments_noncollinear_closed) simp_all
  have z: "orbital_value m idx = 0" for idx by (simp add: orbital_value_def none)
  have 1: "moments m ''spin'' = Inr (Some (build sh' (\<lambda>idx. spin_value m (g idx))))"
    by (simp add: moments_noncollinear[OF sh assms(4) sel] n selected_value_def)
  have 3: "moments m ''total'' = Inr (Some (build sh' (\<lambda>idx. spin_value m (g idx))))"
    by (simp add: moments_noncollinear[OF sh assms(4) sel] n selected_value_def z)
  have 2: "moments m ''orbital'' = Inl (NoData no_orbital_message)"
    by (rule moments_no_orbital[OF assms(4,3)])
  show ?thesis using 1 2 3 by (simp add: no_orbital_message_def)
qed

lemma sample_noncollinear_orbital_facts:
  "valid_raw (raw_data sample_noncollinear_orbital)"
  "noncollinear sample_noncollinear_orbital = Inr True"
  "has_orbital_moments sample_noncollinear_orbital"
  "raise_error_if_steps_out_of_bounds sample_noncollinear_orbital = Inr ()"
  by (simp_all add: sample_noncollinear_orbital_def valid_raw_def wf_array_def ndim_def
      noncollinear_def shape_axis_def has_orbital_moments_def
      steps_check_Index[where ns = 1 and rest = "[4, 2, 2]" and i = 0] int_position_def)

lemma sample_noncollinear_facts:
  "valid_raw (raw_data sample_noncollinear)"
  "noncollinear sample_noncollinear = Inr True"
  "\<not> has_orbital_moments sample_noncollinear"
  "raise_error_if_steps_out_of_bounds sample_noncollinear = Inr ()"
  by (simp_all add: sample_noncollinear_def valid_raw_def wf_array_def ndim_def
      noncollinear_def shape_axis_def has_orbital_moments_def
      steps_check_Index[where ns = 1 and rest = "[4, 2, 2]" and i = 0] int_position_def)

theorem noncollinear_without_orbital_moments_witness:
  "valid_raw (raw_data sample_noncollinear)
   \<and> noncollinear sample_noncollinear = Inr True
   \<and> \<not> has_orbital_moments sample_noncollinear
   \<and> raise_error_if_steps_out_of_bounds sample_noncollinear = Inr ()
   \<and> (\<exists>s. moments sample_noncollinear ''spin'' = Inr (Some s)
         \<and> moments sample_noncollinear ''total'' = Inr (Some s))
   \<and> (\<exists>msg. moments sample_noncollinear ''orbital'' = Inl (NoData msg))"
  using noncollinear_without_orbital_moments[OF sample_noncollinear_facts]
    sample_noncollinear_facts
  by blast

lemma getitem_component_ok:
  assumes sh: "shape a = [ns, nc, na, no]" and c: "c < nc"
      and ok: "raise_error_if_steps_out_of_bounds m = Inr ()"
      and sp: "shape (spin_moments (raw_data m)) = ns # rest"
  obtains (Index) i p where "steps m = Index i" "int_position ns i = Inr p"
      "getitem a [steps m, Index (int c)] = Inr (build [na, no] (\<lambda>idx. elem_at a (p # c # idx)))"
  | (Slice) s e st ps where "steps m = Slice s e st" "slice_positions s e st ns = Inr ps"
      "getitem a [steps m, Index (int c)] =
         Inr (build [length ps, na, no] (\<lambda>idx. elem_at a ((ps ! hd idx) # c # tl idx)))"
proof -
  from sp ok show ?thesis
  proof (cases rule: steps_ok_cases)
    case (Index i p)
    show ?thesis
      using Index getitem_step_component[OF sh Index(2) c] by (intro that(1)) simp_all
  next
    case (Slice s e st ps)
    show ?thesis
      using Slice getitem_slice_component[OF sh Slice(2) c] by (intro that(2)) simp_all
  qed
qed

text \<open>
  Claim C6, as the code has it. For collinear data and a selector that passes the step
  check, the selections spin and total return the component-1 slice
  \<open>spin_moments[steps, 1]\<close>; the selection orbital returns the same array when orbital
  moments are present and raises \<open>NoData\<close> when they are absent.
\<close>

theorem collinear_moments_ignore_valid_selection:
  fixes m :: "'a::{zero,plus} magnetism"
  assumes "valid_raw (raw_data m)"
      and "spin_polarized m = Inr True"
      and "raise_error_if_steps_out_of_bounds m = Inr ()"
  shows "\<exists>x. getitem (spin_moments (raw_data m)) [steps m, Index 1] = Inr x
       \<and> moments m ''spin'' = Inr (Some x)
       \<and> moments m ''total'' = Inr (Some x)
       \<and> moments m ''orbital'' =
            (if has_orbital_moments m then Inr (Some x) else Inl (NoData no_orbital_message))"
proof -
  from assms(1) obtain ns nc na no where s: "shape (spin_moments (raw_data m)) = [ns, nc, na, no]"
    by (rule valid_raw_shape)
  with assms(2) have nc: "nc = 2" by (simp add: regime_of_shape(2)[OF s])
  have sh: "shape (spin_moments (raw_data m)) = [ns, 2, na, no]" using s nc by simp
  have c: "(1::nat) < 2" by simp
  have "\<exists>x. getitem (spin_moments (raw_data m)) [steps m, Index (int 1)] = Inr x"
    using sh c assms(3) sh by (cases rule: getitem_component_ok) blast+
  then obtain x where x: "getitem (spin_moments (raw_data m)) [steps m, Index 1] = Inr x"
    by auto
  have col: "collinear_moments m = Inr x" by (simp add: collinear_moments_def x)
  have sel: "raise_error_if_selection_not_available m s = Inr ()"
    if "s \<in> {''spin'', ''total''} \<or> s = ''orbital'' \<and> has_orbital_moments m" for s
    using that by (rule selection_check_ok)
  have 1: "moments m ''spin'' = Inr (Some x)"
    by (simp add: moments_collinear[OF sh assms(3) sel] col)
  have 2: "moments m ''total'' = Inr (Some x)"
    by (simp add: moments_collinear[OF sh assms(3) sel] col)
  have 3: "moments m ''orbital'' =
            (if has_orbital_moments m then Inr (Some x) else Inl (NoData no_orbital_message))"
  proof (cases "has_orbital_moments m")
    case True
    then show ?thesis by (simp add: moments_collinear[OF sh assms(3) sel] col)
  next
    case False
    then show ?thesis by (simp add: moments_no_orbital[OF assms(3)])
  qed
  show ?thesis using x 1 2 3 by blast
qed

lemma sample_collinear_facts:
  "valid_raw (raw_data sample_collinear)"
  "spin_polarized sample_collinear = Inr True"
  "raise_error_if_steps_out_of_bounds sample_collinear = Inr ()"
  "\<not> has_orbital_moments sample_collinear"
  by (simp_all add: sample_collinear_def valid_raw_def wf_array_def ndim_def
      spin_polarized_def shape_axis_def has_orbital_moments_def
      steps_check_Index[where ns = 1 and rest = "[2, 2, 2]" and i = 0] int_position_def)

text \<open>Collinear data without orbital moments: the selection spin returns the
  component-1 slice, the selection orbital raises \<open>NoData\<close>, so the three selections do
  not all return equal arrays.\<close>

theorem collinear_orbital_selection_raises:
  "spin_polarized sample_collinear = Inr True
   \<and> raise_error_if_steps_out_of_bounds sample_collinear = Inr ()
   \<and> moments sample_collinear ''spin'' = Inr (Some \<lparr>shape = [2, 2], elems = [5, 6, 7, 8]\<rparr>)
   \<and> moments sample_collinear ''total'' = Inr (Some \<lparr>shape = [2, 2], elems = [5, 6, 7, 8]\<rparr>)
   \<and> moments sample_collinear ''orbital'' = Inl (NoData no_orbital_message)"
  by code_simp

theorem collinear_moments_ignore_valid_selection_witness:
  "valid_raw (raw_data sample_collinear)
   \<and> spin_polarized sample_collinear = Inr True
   \<and> raise_error_if_steps_out_of_bounds sample_collinear = Inr ()
   \<and> (\<exists>x. getitem (spin_moments (raw_data sample_collinear)) [steps sample_collinear, Index 1] = Inr x
       \<and> moments sample_collinear ''spin'' = Inr (Some x)
       \<and> moments sample_collinear ''total'' = Inr (Some x))"
  using collinear_moments_ignore_valid_selection[OF sample_collinear_facts(1,2,3)]
    sample_collinear_facts(1,2,3)
  by blast

lemma sum_last_axis2:
  assumes c: "c = build [na, no] f"
      and t: "t = build [na] (\<lambda>idx. sum_list (map (\<lambda>j. f [idx ! 0, j]) [0..<no]))"
      and idx: "idx \<in> set (indices (shape t))"
  shows "elem_at t idx = sum_list (map (\<lambda>j. elem_at c (idx @ [j])) [0..<last (shape c)])"
proof -
  from idx obtain a where a: "idx = [a]" "a < na"
    by (auto simp: t set_indices in_bounds1)
  have ib: "in_bounds [na] [a]" using a by (simp add: in_bounds1)
  have meq: "map (\<lambda>j. elem_at c ([a] @ [j])) [0..<no] = map (\<lambda>j. f [a, j]) [0..<no]"
  proof (rule map_cong[OF refl])
    fix j assume "j \<in> set [0..<no]"
    then have "in_bounds [na, no] [a, j]" using a by (simp add: in_bounds2)
    then show "elem_at c ([a] @ [j]) = f [a, j]" by (simp add: c elem_at_build)
  qed
  have la: "last (shape c) = no" by (simp add: c)
  have lhs: "(\<lambda>j. f [[a] ! 0, j]) = (\<lambda>j. f [a, j])" by simp
  show ?thesis unfolding a t elem_at_build[OF ib] la meq lhs ..
qed

lemma sum_last_axis3:
  assumes c: "c = build [k, na, no] f"
      and t: "t = build [k, na] (\<lambda>idx. sum_list (map (\<lambda>j. f [idx ! 0, idx ! 1, j]) [0..<no]))"
      and idx: "idx \<in> set (indices (shape t))"
  shows "elem_at t idx = sum_list (map (\<lambda>j. elem_at c (idx @ [j])) [0..<last (shape c)])"
proof -
  from idx obtain s a where a: "idx = [s, a]" "s < k" "a < na"
    by (auto simp: t set_indices in_bounds2)
  have ib: "in_bounds [k, na] [s, a]" using a by (simp add: in_bounds2)
  have meq: "map (\<lambda>j. elem_at c ([s, a] @ [j])) [0..<no] = map (\<lambda>j. f [s, a, j]) [0..<no]"
  proof (rule map_cong[OF refl])
    fix j assume "j \<in> set [0..<no]"
    then have "in_bounds [k, na, no] [s, a, j]" using a by (simp add: in_bounds3)
    then show "elem_at c ([s, a] @ [j]) = f [s, a, j]" by (simp add: c elem_at_build)
  qed
  have la: "last (shape c) = no" by (simp add: c)
  have lhs: "(\<lambda>j. f [[s, a] ! 0, [s, a] ! 1, j]) = (\<lambda>j. f [s, a, j])" by simp
  show ?thesis unfolding a t elem_at_build[OF ib] la meq lhs ..
qed

lemma total_charges_unfold:
  "charges m = Inr c \<Longrightarrow> total_charges m = map_sum id Some (np_sum c (- 1))"
  by (simp add: total_charges_def sum_over_orbitals_def)

text \<open>
  Claim C8, as the code has it. In every regime and for a selector that passes the step
  check, \<open>total_charges\<close> is \<open>charges\<close> summed over its last axis, the orbital axis
  (\<^verbatim>\<open>np.sum(quantity, axis=-1)\<close>): the result loses that axis and holds one value per
  atom, the sum of the atom's charges over the orbitals.
\<close>

theorem total_charges_sums_last_axis:
  fixes m :: "'a::monoid_add magnetism"
  assumes "valid_raw (raw_data m)"
      and "only_charge m = Inr True \<or> spin_polarized m = Inr True \<or> noncollinear m = Inr True"
      and "raise_error_if_steps_out_of_bounds m = Inr ()"
  shows "\<exists>c t. charges m = Inr c \<and> total_charges m = Inr (Some t)
       \<and> np_sum c (- 1) = Inr t
       \<and> shape t = butlast (shape c)
       \<and> (\<forall>idx \<in> set (indices (shape t)).
             elem_at t idx = sum_list (map (\<lambda>j. elem_at c (idx @ [j])) [0..<last (shape c)]))"
proof -
  from assms(1) obtain ns nc na no where s: "shape (spin_moments (raw_data m)) = [ns, nc, na, no]"
    by (rule valid_raw_shape)
  from assms(2) have pos: "0 < nc" by (auto simp: regime_of_shape[OF s])
  from s pos assms(3) s show ?thesis
  proof (cases rule: getitem_component_ok)
    case (Index i p)
    define c where "c = build [na, no] (\<lambda>idx. elem_at (spin_moments (raw_data m)) (p # 0 # idx))"
    define t where "t = build [na] (\<lambda>idx. sum_list (map (\<lambda>j. elem_at (spin_moments (raw_data m)) (p # 0 # [idx ! 0, j])) [0..<no]))"
    have ch: "charges m = Inr c" using Index(3) by (simp add: charges_def assms(3) c_def)
    have su: "np_sum c (- 1) = Inr t" unfolding c_def t_def by (rule np_sum_build2)
    have tc: "total_charges m = Inr (Some t)" by (simp add: total_charges_unfold[OF ch] su)
    have sh: "shape t = butlast (shape c)" by (simp add: c_def t_def)
    have el: "\<forall>idx \<in> set (indices (shape t)).
             elem_at t idx = sum_list (map (\<lambda>j. elem_at c (idx @ [j])) [0..<last (shape c)])"
      using sum_last_axis2[OF c_def t_def] by blast
    show ?thesis using ch tc su sh el by blast
  next
    case (Slice a b st ps)
    define c where "c = build [length ps, na, no] (\<lambda>idx. elem_at (spin_moments (raw_data m)) ((ps ! hd idx) # 0 # tl idx))"
    define t where "t = build [length ps, na] (\<lambda>idx. sum_list (map (\<lambda>j. elem_at (spin_moments (raw_data m)) ((ps ! hd [idx ! 0, idx ! 1, j]) # 0 # tl [idx ! 0, idx ! 1, j])) [0..<no]))"
    have ch: "charges m = Inr c" using Slice(3) by (simp add: charges_def assms(3) c_def)
    have su: "np_sum c (- 1) = Inr t" unfolding c_def t_def by (rule np_sum_build3)
    have tc: "total_charges m = Inr (Some t)" by (simp add: total_charges_unfold[OF ch] su)
    have sh: "shape t = butlast (shape c)" by (simp add: c_def t_def)
    have el: "\<forall>idx \<in> set (indices (shape t)).
             elem_at t idx = sum_list (map (\<lambda>j. elem_at c (idx @ [j])) [0..<last (shape c)])"
      using sum_last_axis3[OF c_def t_def] by blast
    show ?thesis using ch tc su sh el by blast
  qed
qed

text \<open>The charges of two atoms with two orbitals each: the sum over the last axis gives
  one value per atom, the sum over the second-to-last axis adds the atoms up instead,
  and \<open>total_charges\<close> is the former.\<close>

theorem total_charges_not_second_to_last_axis:
  "charges sample_collinear = Inr \<lparr>shape = [2, 2], elems = [1, 2, 3, 4]\<rparr>
   \<and> total_charges sample_collinear = Inr (Some \<lparr>shape = [2], elems = [3, 7]\<rparr>)
   \<and> np_sum \<lparr>shape = [2, 2], elems = [1, 2, 3, 4 :: int]\<rparr> (- 2)
       = Inr \<lparr>shape = [2], elems = [4, 6]\<rparr>"
  by code_simp

theorem total_charges_sums_last_axis_witness:
  "valid_raw (raw_data sample_collinear)
   \<and> spin_polarized sample_collinear = Inr True
   \<and> raise_error_if_steps_out_of_bounds sample_collinear = Inr ()
   \<and> (\<exists>c t. charges sample_collinear = Inr c \<and> total_charges sample_collinear = Inr (Some t)
       \<and> np_sum c (- 1) = Inr t \<and> shape t = butlast (shape c))"
proof -
  have r: "only_charge sample_collinear = Inr True \<or> spin_polarized sample_collinear = Inr True
     \<or> noncollinear sample_collinear = Inr True"
    by (simp add: sample_collinear_facts(2))
  from total_charges_sums_last_axis[OF sample_collinear_facts(1) r sample_collinear_facts(3)]
  show ?thesis using sample_collinear_facts(1,2,3) by blast
qed

lemma library_error_not_usage: "library_error e \<Longrightarrow> \<not> raises_incorrect_usage (Inl e)"
  by (auto simp: library_error_def raises_incorrect_usage_def)

lemma not_usage_Inr [simp]: "\<not> raises_incorrect_usage (Inr x)"
  by (simp add: raises_incorrect_usage_def)

lemma usage_Inl [simp]: "raises_incorrect_usage (Inl (IncorrectUsage msg))"
  by (simp add: raises_incorrect_usage_def)

lemma not_usage_NoData [simp]: "\<not> raises_incorrect_usage (Inl (NoData msg))"
  by (simp add: raises_incorrect_usage_def)

lemma not_usage_ValueError [simp]: "\<not> raises_incorrect_usage (Inl ValueError)"
  by (simp add: raises_incorrect_usage_def)

lemma index_shape_error: "index_shape sh ixs = Inl e \<Longrightarrow> library_error e"
proof (induction sh ixs rule: index_shape.induct)
  case (1 sh)
  then show ?case by simp
next
  case (2 i ixs)
  then show ?case by (simp add: library_error_def)
next
  case (3 n sh i ixs)
  show ?case
  proof (cases "int_position n i")
    case (Inl e')
    then have "e' = IndexError" by (rule int_position_Inl)
    with 3 Inl show ?thesis by (simp add: library_error_def)
  next
    case (Inr p)
    with 3 show ?thesis by simp
  qed
next
  case (4 n sh start stop step ixs)
  show ?case
  proof (cases "slice_positions start stop step n")
    case (Inl e')
    then have "e' = ValueError" using slice_positions_Inl by blast
    with 4 Inl show ?thesis by (simp add: library_error_def)
  next
    case (Inr ps)
    with 4 show ?thesis by (cases "index_shape sh ixs") simp_all
  qed
qed

lemma getitem_error: "getitem a ixs = Inl e \<Longrightarrow> library_error e"
  by (cases "index_shape (shape a) ixs")
     (auto simp: getitem_def library_error_def split: if_splits dest: index_shape_error)

lemma normalize_axis_error: "normalize_axis nd ax = Inl e \<Longrightarrow> e = AxisError"
  by (auto simp: normalize_axis_def split: if_splits)

lemma np_sum_error: "np_sum a ax = Inl e \<Longrightarrow> library_error e"
  by (cases "normalize_axis (ndim a) ax")
     (auto simp: np_sum_def library_error_def dest: normalize_axis_error)

lemma moveaxis_error: "moveaxis a s d = Inl e \<Longrightarrow> library_error e"
  by (cases "normalize_axis (ndim a) s"; cases "normalize_axis (ndim a) d")
     (auto simp: moveaxis_def library_error_def dest: normalize_axis_error)

lemma np_add_error: "np_add a b = Inl e \<Longrightarrow> library_error e"
  by (cases "broadcast_shapes (shape a) (shape b)") (auto simp: np_add_def library_error_def)

lemma shape_axis_error: "shape_axis a k = Inl e \<Longrightarrow> library_error e"
  by (auto simp: shape_axis_def library_error_def split: if_splits)

lemma regime_error:
  "only_charge m = Inl e \<Longrightarrow> library_error e"
  "spin_polarized m = Inl e \<Longrightarrow> library_error e"
  "noncollinear m = Inl e \<Longrightarrow> library_error e"
  by (cases "shape_axis (spin_moments (raw_data m)) 1";
      auto simp: only_charge_def spin_polarized_def noncollinear_def dest: shape_axis_error)+

lemma sum_over_orbitals_error: "sum_over_orbitals q v = Inl e \<Longrightarrow> library_error e"
proof (cases q)
  case None
  assume "sum_over_orbitals q v = Inl e"
  with None show ?thesis by (simp add: sum_over_orbitals_def)
next
  case (Some a)
  assume h: "sum_over_orbitals q v = Inl e"
  show ?thesis
  proof (cases v)
    case True
    with h Some have "np_sum a (- 2) = Inl e"
      by (cases "np_sum a (- 2)") (simp_all add: sum_over_orbitals_def)
    then show ?thesis by (rule np_sum_error)
  next
    case False
    with h Some have "np_sum a (- 1) = Inl e"
      by (cases "np_sum a (- 1)") (simp_all add: sum_over_orbitals_def)
    then show ?thesis by (rule np_sum_error)
  qed
qed

lemma noncollinear_moments_error:
  fixes m :: "'a::{zero,plus} magnetism"
  assumes "noncollinear_moments m sel = Inl e"
  shows "library_error e"
proof (cases "getitem (spin_moments (raw_data m)) [steps m, from_one]")
  case (Inl e')
  with assms have "e = e'" by (simp add: noncollinear_moments_def)
  with Inl show ?thesis using getitem_error by blast
next
  case spin: (Inr spin)
  show ?thesis
  proof (cases "case orbital_moments (raw_data m) of
                 Some orb \<Rightarrow> getitem orb [steps m, from_one]
               | None \<Rightarrow> Inr (zeros_like spin)")
    case (Inl e')
    with assms spin have e: "e = e'" by (simp add: noncollinear_moments_def)
    from Inl have "\<exists>orb :: 'a ndarray. getitem orb [steps m, from_one] = Inl e'"
      by (cases "orbital_moments (raw_data m)") auto
    then obtain orb :: "'a ndarray" where "getitem orb [steps m, from_one] = Inl e'" by blast
    then show ?thesis using e getitem_error by blast
  next
    case orb: (Inr orbital)
    show ?thesis
    proof (cases "if sel = ''orbital'' then Inr orbital
                   else if sel = ''spin'' then Inr spin
                   else np_add spin orbital")
      case (Inl e')
      with assms spin orb have e: "e = e'" by (simp add: noncollinear_moments_def)
      from Inl have "np_add spin orbital = Inl e'" by (simp split: if_splits)
      then show ?thesis using e np_add_error by blast
    next
      case (Inr moms)
      with assms spin orb have "moveaxis moms (if ndim moms = 4 then 1 else 0) (- 1) = Inl e"
        by (simp add: noncollinear_moments_def)
      then show ?thesis by (rule moveaxis_error)
    qed
  qed
qed

lemma moments_after_checks_error:
  fixes m :: "'a::{zero,plus} magnetism"
  assumes "raise_error_if_steps_out_of_bounds m = Inr ()"
      and "raise_error_if_selection_not_available m sel = Inr ()"
      and "moments m sel = Inl e"
  shows "library_error e"
proof (cases "only_charge m")
  case (Inl e')
  with assms(3) show ?thesis using regime_error(1)[OF Inl] by (simp add: moments_unfold[OF assms(1,2)])
next
  case oc: (Inr oc)
  show ?thesis
  proof (cases oc)
    case True
    with oc assms(3) show ?thesis by (simp add: moments_unfold[OF assms(1,2)])
  next
    case False
    show ?thesis
    proof (cases "spin_polarized m")
      case (Inl e')
      with assms(3) oc False show ?thesis using regime_error(2)[OF Inl]
        by (simp add: moments_unfold[OF assms(1,2)])
    next
      case sp: (Inr sp)
      show ?thesis
      proof (cases sp)
        case True
        with assms(3) oc False sp have "collinear_moments m = Inl e"
          by (cases "collinear_moments m") (simp_all add: moments_unfold[OF assms(1,2)])
        then show ?thesis unfolding collinear_moments_def by (rule getitem_error)
      next
        case f: False
        with assms(3) oc False sp have "noncollinear_moments m sel = Inl e"
          by (cases "noncollinear_moments m sel") (simp_all add: moments_unfold[OF assms(1,2)])
        then show ?thesis by (rule noncollinear_moments_error)
      qed
    qed
  qed
qed

lemma not_usage_if_library:
  "(\<And>e. r = Inl e \<Longrightarrow> library_error e) \<Longrightarrow> \<not> raises_incorrect_usage r"
  by (cases r) (simp_all add: library_error_not_usage)

lemma usage_Inl_iff: "raises_incorrect_usage (Inl e) = (\<exists>msg. e = IncorrectUsage msg)"
  by (cases e) (simp_all add: raises_incorrect_usage_def)

lemma steps_check_result:
  assumes "shape (spin_moments (raw_data m)) = ns # rest"
  shows "raise_error_if_steps_out_of_bounds m =
     (if index_out_of_range m then Inl (IncorrectUsage (steps_message (steps m)))
      else if (\<exists>a b. steps m = Slice a b (Some 0)) then Inl ValueError
      else Inr ())"
proof (cases "steps m")
  case (Index i)
  show ?thesis
    unfolding steps_check_Index[OF assms Index]
    by (simp add: Index index_out_of_range_def assms int_position_def not_less not_le)
next
  case (Slice a b c)
  show ?thesis
    unfolding steps_check_Slice[OF assms Slice]
    by (simp add: Slice index_out_of_range_def)
qed

lemma steps_check_usage:
  assumes "shape (spin_moments (raw_data m)) = ns # rest"
  shows "raises_incorrect_usage (raise_error_if_steps_out_of_bounds m) = index_out_of_range m"
  by (simp add: steps_check_result[OF assms])

lemma steps_check_not_ok:
  assumes "shape (spin_moments (raw_data m)) = ns # rest"
      and "raise_error_if_steps_out_of_bounds m \<noteq> Inr ()"
  shows "\<exists>e. raise_error_if_steps_out_of_bounds m = Inl e
       \<and> (\<exists>msg. e = IncorrectUsage msg) = index_out_of_range m
       \<and> (index_out_of_range m \<longrightarrow> e = IncorrectUsage (steps_message (steps m)))"
proof (cases "index_out_of_range m")
  case True
  then show ?thesis by (simp add: steps_check_result[OF assms(1)])
next
  case False
  with assms(2) have "raise_error_if_steps_out_of_bounds m = Inl ValueError"
    by (simp add: steps_check_result[OF assms(1)] split: if_splits)
  then show ?thesis using False by simp
qed

lemma charges_usage:
  fixes m :: "'a::zero magnetism"
  assumes "shape (spin_moments (raw_data m)) = ns # rest"
  shows "raises_incorrect_usage (charges m) = index_out_of_range m"
    and "index_out_of_range m \<Longrightarrow> charges m = Inl (IncorrectUsage (steps_message (steps m)))"
proof -
  have "raises_incorrect_usage (charges m) = index_out_of_range m
      \<and> (index_out_of_range m \<longrightarrow> charges m = Inl (IncorrectUsage (steps_message (steps m))))"
  proof (cases "raise_error_if_steps_out_of_bounds m = Inr ()")
    case True
    then have no: "\<not> index_out_of_range m" using steps_check_usage[OF assms] by auto
    have "\<not> raises_incorrect_usage (charges m)"
      by (rule not_usage_if_library) (auto simp: charges_def True dest: getitem_error)
    with no show ?thesis by simp
  next
    case False
    from steps_check_not_ok[OF assms False]
    obtain e where e: "raise_error_if_steps_out_of_bounds m = Inl e"
      "(\<exists>msg. e = IncorrectUsage msg) = index_out_of_range m"
      "index_out_of_range m \<longrightarrow> e = IncorrectUsage (steps_message (steps m))"
      by blast
    have "charges m = Inl e" by (simp add: charges_def e(1))
    then show ?thesis using e(2,3) by (simp add: usage_Inl_iff)
  qed
  then show "raises_incorrect_usage (charges m) = index_out_of_range m"
    and "index_out_of_range m \<Longrightarrow> charges m = Inl (IncorrectUsage (steps_message (steps m)))"
    by simp_all
qed

lemma total_charges_usage:
  fixes m :: "'a::monoid_add magnetism"
  assumes "shape (spin_moments (raw_data m)) = ns # rest"
  shows "raises_incorrect_usage (total_charges m) = index_out_of_range m"
proof (cases "charges m")
  case (Inl e)
  then have "total_charges m = Inl e" by (simp add: total_charges_def)
  then have "raises_incorrect_usage (total_charges m) = raises_incorrect_usage (charges m)"
    using Inl by (simp add: raises_incorrect_usage_def)
  then show ?thesis by (simp add: charges_usage(1)[OF assms])
next
  case (Inr c)
  then have no: "\<not> index_out_of_range m" using charges_usage(1)[OF assms] by auto
  have "\<not> raises_incorrect_usage (total_charges m)"
    by (rule not_usage_if_library) (auto simp: total_charges_def Inr dest: sum_over_orbitals_error)
  with no show ?thesis by simp
qed

lemma selection_check_result:
  "raise_error_if_selection_not_available m sel =
    (if sel \<notin> {''total'', ''spin'', ''orbital''} then Inl (IncorrectUsage (selection_message sel))
     else if sel = ''orbital'' \<and> \<not> has_orbital_moments m then Inl (NoData no_orbital_message)
     else Inr ())"
  by (auto simp: raise_error_if_selection_not_available_def)

lemma moments_usage:
  fixes m :: "'a::{zero,plus} magnetism"
  assumes "shape (spin_moments (raw_data m)) = ns # rest"
  shows "raises_incorrect_usage (moments m sel) =
           (index_out_of_range m \<or> raise_error_if_steps_out_of_bounds m = Inr ()
              \<and> sel \<notin> {''total'', ''spin'', ''orbital''})"
    and "index_out_of_range m \<Longrightarrow> moments m sel = Inl (IncorrectUsage (steps_message (steps m)))"
    and "raise_error_if_steps_out_of_bounds m = Inr () \<Longrightarrow> sel \<notin> {''total'', ''spin'', ''orbital''}
           \<Longrightarrow> moments m sel = Inl (IncorrectUsage (selection_message sel))"
proof -
  have "raises_incorrect_usage (moments m sel) =
           (index_out_of_range m \<or> raise_error_if_steps_out_of_bounds m = Inr ()
              \<and> sel \<notin> {''total'', ''spin'', ''orbital''})
      \<and> (index_out_of_range m \<longrightarrow> moments m sel = Inl (IncorrectUsage (steps_message (steps m))))"
  proof (cases "raise_error_if_steps_out_of_bounds m = Inr ()")
    case True
    then have no: "\<not> index_out_of_range m" using steps_check_usage[OF assms] by auto
    show ?thesis
    proof (cases "raise_error_if_selection_not_available m sel")
      case (Inl e)
      then have mo: "moments m sel = Inl e" by (simp add: moments_def True)
      show ?thesis using Inl no True unfolding mo selection_check_result
        by (auto split: if_splits)
    next
      case (Inr u)
      then have ok: "raise_error_if_selection_not_available m sel = Inr ()" by simp
      then have tag: "\<not> sel \<notin> {''total'', ''spin'', ''orbital''}"
        unfolding selection_check_result by (auto split: if_splits)
      have "\<not> raises_incorrect_usage (moments m sel)"
        by (rule not_usage_if_library) (rule moments_after_checks_error[OF True ok])
      then show ?thesis using no tag by simp
    qed
  next
    case False
    from steps_check_not_ok[OF assms False]
    obtain e where e: "raise_error_if_steps_out_of_bounds m = Inl e"
      "(\<exists>msg. e = IncorrectUsage msg) = index_out_of_range m"
      "index_out_of_range m \<longrightarrow> e = IncorrectUsage (steps_message (steps m))"
      by blast
    have "moments m sel = Inl e" by (simp add: moments_def e(1))
    then show ?thesis using e(2,3) False by (simp add: usage_Inl_iff)
  qed
  then show "raises_incorrect_usage (moments m sel) =
           (index_out_of_range m \<or> raise_error_if_steps_out_of_bounds m = Inr ()
              \<and> sel \<notin> {''total'', ''spin'', ''orbital''})"
    and "index_out_of_range m \<Longrightarrow> moments m sel = Inl (IncorrectUsage (steps_message (steps m)))"
    by simp_all
  show "moments m sel = Inl (IncorrectUsage (selection_message sel))"
    if "raise_error_if_steps_out_of_bounds m = Inr ()" "sel \<notin> {''total'', ''spin'', ''orbital''}"
    using that by (simp add: moments_def selection_check_result)
qed

lemma total_moments_usage:
  fixes m :: "'a::monoid_add magnetism"
  assumes "shape (spin_moments (raw_data m)) = ns # rest"
  shows "raises_incorrect_usage (total_moments m sel) = raises_incorrect_usage (moments m sel)"
proof (cases "moments m sel")
  case (Inl e)
  then have "total_moments m sel = Inl e" by (simp add: total_moments_def)
  then show ?thesis using Inl by (simp add: raises_incorrect_usage_def)
next
  case (Inr mo)
  have "\<not> raises_incorrect_usage (total_moments m sel)"
  proof (rule not_usage_if_library)
    fix e assume h: "total_moments m sel = Inl e"
    show "library_error e"
    proof (cases "noncollinear m")
      case (Inl e')
      with h Inr have "e = e'" by (simp add: total_moments_def)
      then show ?thesis using regime_error(3)[OF Inl] by simp
    next
      case nc: (Inr nc)
      with h Inr have "sum_over_orbitals mo nc = Inl e" by (simp add: total_moments_def)
      then show ?thesis by (rule sum_over_orbitals_error)
    qed
  qed
  then show ?thesis using Inr by simp
qed

text \<open>
  Claim C4, as the code has it. On raw data with its four axes, \<open>charges\<close> and
  \<open>total_charges\<close> raise \<open>IncorrectUsage\<close> exactly when the selector is an integer outside
  \<open>-n \<le> i < n\<close>, where \<open>n\<close> is the length of the step axis; \<open>moments\<close> and
  \<open>total_moments\<close> raise it exactly then, or when the step check passes and the tag is
  not one of total, spin, orbital. A slice never raises it: numpy clamps its end points.
  The message holds the text of the offending selector or tag.
\<close>

theorem incorrect_usage_exactly_on_bad_index_or_tag:
  fixes m :: "'a::monoid_add magnetism"
  assumes "valid_raw (raw_data m)"
  shows "raises_incorrect_usage (charges m) = index_out_of_range m
       \<and> raises_incorrect_usage (total_charges m) = index_out_of_range m
       \<and> raises_incorrect_usage (moments m sel) =
            (index_out_of_range m \<or> raise_error_if_steps_out_of_bounds m = Inr ()
               \<and> sel \<notin> {''total'', ''spin'', ''orbital''})
       \<and> raises_incorrect_usage (total_moments m sel) =
            (index_out_of_range m \<or> raise_error_if_steps_out_of_bounds m = Inr ()
               \<and> sel \<notin> {''total'', ''spin'', ''orbital''})
       \<and> (index_out_of_range m \<longrightarrow>
            charges m = Inl (IncorrectUsage
              (''Error reading the magnetic moments. Please check if the steps `''
               @ show_index (steps m) @ ''` are properly formatted and within the boundaries.''))
            \<and> moments m sel = Inl (IncorrectUsage
              (''Error reading the magnetic moments. Please check if the steps `''
               @ show_index (steps m) @ ''` are properly formatted and within the boundaries.'')))
       \<and> (raise_error_if_steps_out_of_bounds m = Inr () \<and> sel \<notin> {''total'', ''spin'', ''orbital''} \<longrightarrow>
            moments m sel = Inl (IncorrectUsage
              (''The selection '' @ sel @ '' is incorrect. Please check if it is spelled ''
               @ ''correctly. Possible choices are total, spin, or orbital.'')))"
proof -
  from assms obtain ns nc na no where s: "shape (spin_moments (raw_data m)) = [ns, nc, na, no]"
    by (rule valid_raw_shape)
  note c = charges_usage[OF s]
  note tc = total_charges_usage[OF s]
  note mo = moments_usage[OF s, of sel]
  note tm = total_moments_usage[OF s, of sel]
  show ?thesis
    using c(1) tc mo(1) tm c(2) mo(2) mo(3)
    by (simp add: steps_message_def selection_message_def)
qed

text \<open>A slice from 5 to 10 on data with one step does not lie within the step axis,
  yet nothing is raised: the selection is empty.\<close>

theorem slice_beyond_steps_is_not_rejected:
  "\<not> spec_steps_within_bounds (hd (shape (spin_moments (raw_data sample_slice_beyond))))
        (steps sample_slice_beyond)
   \<and> charges sample_slice_beyond = Inr \<lparr>shape = [0, 2, 2], elems = []\<rparr>
   \<and> total_charges sample_slice_beyond = Inr (Some \<lparr>shape = [0, 2], elems = []\<rparr>)
   \<and> moments sample_slice_beyond ''total'' = Inr (Some \<lparr>shape = [0, 2, 2], elems = []\<rparr>)
   \<and> total_moments sample_slice_beyond ''total'' = Inr (Some \<lparr>shape = [0, 2], elems = []\<rparr>)"
  by code_simp

lemma sample_index_beyond_facts:
  "valid_raw (raw_data sample_index_beyond)"
  "index_out_of_range sample_index_beyond"
  by (simp_all add: sample_index_beyond_def sample_collinear_def valid_raw_def wf_array_def
      ndim_def index_out_of_range_def)

theorem incorrect_usage_witness:
  "valid_raw (raw_data sample_index_beyond)
   \<and> index_out_of_range sample_index_beyond
   \<and> raises_incorrect_usage (charges sample_index_beyond)
   \<and> raises_incorrect_usage (total_charges sample_index_beyond)
   \<and> raises_incorrect_usage (moments sample_index_beyond ''total'')
   \<and> raises_incorrect_usage (total_moments sample_index_beyond ''total'')
   \<and> charges sample_index_beyond = Inl (IncorrectUsage
        (''Error reading the magnetic moments. Please check if the steps `''
         @ show_index (Index 5) @ ''` are properly formatted and within the boundaries.''))"
proof -
  have st: "steps sample_index_beyond = Index 5" by (simp add: sample_index_beyond_def)
  from incorrect_usage_exactly_on_bad_index_or_tag[OF sample_index_beyond_facts(1), of "''total''"]
  show ?thesis using sample_index_beyond_facts by (simp add: st)
qed

lemma steps_check_Index_ok:
  "shape (spin_moments (raw_data m)) = ns # rest \<Longrightarrow> steps m = Index i \<Longrightarrow>
   int_position ns i = Inr p \<Longrightarrow> raise_error_if_steps_out_of_bounds m = Inr ()"
  by (simp add: steps_check_Index)

lemma steps_check_Slice_ok:
  assumes "shape (spin_moments (raw_data m)) = ns # rest" "steps m = Slice a b c"
      and "slice_positions a b c ns = Inr ps"
  shows "raise_error_if_steps_out_of_bounds m = Inr ()"
proof -
  have "c \<noteq> Some 0" using assms(3) by (auto simp: slice_positions_zero_step)
  then show ?thesis by (simp add: steps_check_Slice[OF assms(1,2)])
qed

lemma add_spin_and_orbital_Index:
  fixes m :: "'a::{zero,plus} magnetism"
  assumes sh: "shape (spin_moments (raw_data m)) = [ns, 4, na, no]"
      and vo: "\<And>orb. orbital_moments (raw_data m) = Some orb \<Longrightarrow> shape orb = [ns, 4, na, no]"
      and st: "steps m = Index i" and p: "int_position ns i = Inr p"
  shows "add_spin_and_orbital_moments m =
     (if has_orbital_moments m
      then Inr [(''spin_moments'',
                 Some (build [na, no, 3] (\<lambda>idx. spin_value m [p, Suc (idx ! 2), idx ! 0, idx ! 1]))),
                (''orbital_moments'',
                 Some (build [na, no, 3] (\<lambda>idx. orbital_value m [p, Suc (idx ! 2), idx ! 0, idx ! 1])))]
      else Inr [])"
proof (cases "orbital_moments (raw_data m)")
  case None
  then show ?thesis by (simp add: add_spin_and_orbital_moments_def has_orbital_moments_def)
next
  case (Some orb)
  define spin where "spin = build [4 - 1, na, no] (\<lambda>idx. spin_value m (p # Suc (hd idx) # tl idx))"
  define orbital where "orbital = build [4 - 1, na, no] (\<lambda>idx. orbital_value m (p # Suc (hd idx) # tl idx))"
  have g1: "getitem (spin_moments (raw_data m)) [steps m, from_one] = Inr spin"
    unfolding st spin_def spin_value_def by (rule getitem_step_from_one[OF sh p])
  have g2: "getitem orb [steps m, from_one] = Inr orbital"
    unfolding st orbital_def orbital_value_def Some option.case
    by (rule getitem_step_from_one[OF vo[OF Some] p])
  have nd: "ndim spin \<noteq> 4" by (simp add: spin_def)
  have m1: "moveaxis spin 0 (- 1) =
      Inr (build [na, no, 3] (\<lambda>idx. spin_value m [p, Suc (idx ! 2), idx ! 0, idx ! 1]))"
    by (simp add: spin_def moveaxis_build3)
  have m2: "moveaxis orbital 0 (- 1) =
      Inr (build [na, no, 3] (\<lambda>idx. orbital_value m [p, Suc (idx ! 2), idx ! 0, idx ! 1]))"
    by (simp add: orbital_def moveaxis_build3)
  have h: "has_orbital_moments m" by (simp add: has_orbital_moments_def Some)
  show ?thesis
    unfolding add_spin_and_orbital_moments_def Some option.case g1 g2 sum.case
    using nd m1 m2 h by simp
qed

lemma add_spin_and_orbital_Slice:
  fixes m :: "'a::{zero,plus} magnetism"
  assumes sh: "shape (spin_moments (raw_data m)) = [ns, 4, na, no]"
      and vo: "\<And>orb. orbital_moments (raw_data m) = Some orb \<Longrightarrow> shape orb = [ns, 4, na, no]"
      and st: "steps m = Slice a b c" and ps: "slice_positions a b c ns = Inr ps"
  shows "add_spin_and_orbital_moments m =
     (if has_orbital_moments m
      then Inr [(''spin_moments'',
                 Some (build [length ps, na, no, 3]
                   (\<lambda>idx. spin_value m [ps ! (idx ! 0), Suc (idx ! 3), idx ! 1, idx ! 2]))),
                (''orbital_moments'',
                 Some (build [length ps, na, no, 3]
                   (\<lambda>idx. orbital_value m [ps ! (idx ! 0), Suc (idx ! 3), idx ! 1, idx ! 2])))]
      else Inr [])"
proof (cases "orbital_moments (raw_data m)")
  case None
  then show ?thesis by (simp add: add_spin_and_orbital_moments_def has_orbital_moments_def)
next
  case (Some orb)
  define spin where "spin = build [length ps, 4 - 1, na, no]
      (\<lambda>idx. spin_value m ((ps ! hd idx) # Suc (hd (tl idx)) # tl (tl idx)))"
  define orbital where "orbital = build [length ps, 4 - 1, na, no]
      (\<lambda>idx. orbital_value m ((ps ! hd idx) # Suc (hd (tl idx)) # tl (tl idx)))"
  have g1: "getitem (spin_moments (raw_data m)) [steps m, from_one] = Inr spin"
    unfolding st spin_def spin_value_def by (rule getitem_slice_from_one[OF sh ps])
  have g2: "getitem orb [steps m, from_one] = Inr orbital"
    unfolding st orbital_def orbital_value_def Some option.case
    by (rule getitem_slice_from_one[OF vo[OF Some] ps])
  have nd: "ndim spin = 4" by (simp add: spin_def)
  have m1: "moveaxis spin 1 (- 1) =
      Inr (build [length ps, na, no, 3]
        (\<lambda>idx. spin_value m [ps ! (idx ! 0), Suc (idx ! 3), idx ! 1, idx ! 2]))"
    by (simp add: spin_def moveaxis_build4)
  have m2: "moveaxis orbital 1 (- 1) =
      Inr (build [length ps, na, no, 3]
        (\<lambda>idx. orbital_value m [ps ! (idx ! 0), Suc (idx ! 3), idx ! 1, idx ! 2]))"
    by (simp add: orbital_def moveaxis_build4)
  have h: "has_orbital_moments m" by (simp add: has_orbital_moments_def Some)
  show ?thesis
    unfolding add_spin_and_orbital_moments_def Some option.case g1 g2 sum.case
    using nd m1 m2 h by simp
qed

lemma charges_ok:
  fixes m :: "'a::zero magnetism"
  assumes "shape (spin_moments (raw_data m)) = [ns, 4, na, no]"
      and "raise_error_if_steps_out_of_bounds m = Inr ()"
  shows "\<exists>c. charges m = Inr c"
proof -
  have c: "(0::nat) < 4" by simp
  have "\<exists>x. getitem (spin_moments (raw_data m)) [steps m, Index (int 0)] = Inr x"
    using assms(1) c assms(2) assms(1) by (cases rule: getitem_component_ok) blast+
  then show ?thesis by (simp add: charges_def assms(2))
qed

lemma elem_at_build3:
  "i < a \<Longrightarrow> j < b \<Longrightarrow> k < c \<Longrightarrow> elem_at (build [a, b, c] f) [i, j, k] = f [i, j, k]"
  by (rule elem_at_build) (simp add: in_bounds3)

lemma elem_at_build4:
  "s < n \<Longrightarrow> i < a \<Longrightarrow> j < b \<Longrightarrow> k < c \<Longrightarrow>
   elem_at (build [n, a, b, c] f) [s, i, j, k] = f [s, i, j, k]"
  by (rule elem_at_build) (simp add: in_bounds4)

lemma selected_value_spin: "selected_value m ''spin'' idx = spin_value m idx"
  by (simp add: selected_value_def)

lemma selected_value_orbital: "selected_value m ''orbital'' idx = orbital_value m idx"
  by (simp add: selected_value_def)

text \<open>
  Claim C2. For noncollinear data, a single in-range step and a slice on the same data:
  \<open>moments\<close> returns an array of shape (atoms, orbitals, 3) for the single step and of
  shape (steps, atoms, orbitals, 3) for the slice; its element at direction \<open>d\<close> of the
  last axis is the combined raw value of component \<open>d + 1\<close> (the direction axis was axis 0
  of the three-axis selection and axis 1 of the four-axis one). The entry \<open>moments\<close> of
  \<open>to_dict\<close> has these shapes, so its rank for the single step is one less than for the
  slice, and with orbital moments present the entries \<open>spin_moments\<close> and
  \<open>orbital_moments\<close> are the arrays of the selections spin and orbital.
\<close>

theorem direction_axis_is_last:
  fixes m1 m2 :: "'a::{zero,plus} magnetism"
  assumes "valid_raw (raw_data m1)"
      and "raw_data m2 = raw_data m1"
      and "shape (spin_moments (raw_data m1)) = [ns, 4, na, no]"
      and "steps m1 = Index i" and "int_position ns i = Inr p"
      and "steps m2 = Slice a b c" and "slice_positions a b c ns = Inr ps"
      and "sel \<in> {''spin'', ''total''} \<or> sel = ''orbital'' \<and> has_orbital_moments m1"
  shows "\<exists>x y d1 d2 x' y'.
        moments m1 sel = Inr (Some x) \<and> moments m2 sel = Inr (Some y)
      \<and> shape x = [na, no, 3] \<and> shape y = [length ps, na, no, 3]
      \<and> (\<forall>atom<na. \<forall>ob<no. \<forall>d<3.
            elem_at x [atom, ob, d] = selected_value m1 sel [p, Suc d, atom, ob])
      \<and> (\<forall>s<length ps. \<forall>atom<na. \<forall>ob<no. \<forall>d<3.
            elem_at y [s, atom, ob, d] = selected_value m2 sel [ps ! s, Suc d, atom, ob])
      \<and> to_dict m1 = Inr d1 \<and> to_dict m2 = Inr d2
      \<and> map_of d1 ''moments'' = Some (Some x') \<and> map_of d2 ''moments'' = Some (Some y')
      \<and> shape x' = [na, no, 3] \<and> shape y' = [length ps, na, no, 3]
      \<and> ndim x' + 1 = ndim y' \<and> last (shape x') = 3 \<and> last (shape y') = 3
      \<and> (has_orbital_moments m1 \<longrightarrow>
            Inr (map_of d1 ''spin_moments'') = map_sum id Some (moments m1 ''spin'')
          \<and> Inr (map_of d1 ''orbital_moments'') = map_sum id Some (moments m1 ''orbital'')
          \<and> Inr (map_of d2 ''spin_moments'') = map_sum id Some (moments m2 ''spin'')
          \<and> Inr (map_of d2 ''orbital_moments'') = map_sum id Some (moments m2 ''orbital''))"
proof -
  note sh1 = assms(3)
  have sh2: "shape (spin_moments (raw_data m2)) = [ns, 4, na, no]" using assms(2,3) by simp
  have vo1: "\<And>orb. orbital_moments (raw_data m1) = Some orb \<Longrightarrow> shape orb = [ns, 4, na, no]"
    using valid_raw_orbital[OF assms(1)] sh1 by simp
  have vo2: "\<And>orb. orbital_moments (raw_data m2) = Some orb \<Longrightarrow> shape orb = [ns, 4, na, no]"
    using vo1 assms(2) by simp
  have ho: "has_orbital_moments m2 = has_orbital_moments m1"
    by (simp add: has_orbital_moments_def assms(2))
  have ok1: "raise_error_if_steps_out_of_bounds m1 = Inr ()"
    by (rule steps_check_Index_ok[OF sh1 assms(4,5)])
  have ok2: "raise_error_if_steps_out_of_bounds m2 = Inr ()"
    by (rule steps_check_Slice_ok[OF sh2 assms(6,7)])
  define F1 where "F1 = (\<lambda>s idx. selected_value m1 s [p, Suc (idx ! 2), idx ! 0, idx ! 1])"
  define F2 where "F2 = (\<lambda>s idx. selected_value m2 s [ps ! (idx ! 0), Suc (idx ! 3), idx ! 1, idx ! 2])"
  have M1: "moments m1 s = Inr (Some (build [na, no, 3] (F1 s)))"
    if "s \<in> {''spin'', ''total''} \<or> s = ''orbital'' \<and> has_orbital_moments m1" for s
    unfolding F1_def
    by (simp add: moments_noncollinear[OF sh1 ok1 selection_check_ok[OF that]]
        noncollinear_moments_Index[OF sh1 vo1 assms(4,5)])
  have M2: "moments m2 s = Inr (Some (build [length ps, na, no, 3] (F2 s)))"
    if "s \<in> {''spin'', ''total''} \<or> s = ''orbital'' \<and> has_orbital_moments m2" for s
    unfolding F2_def
    by (simp add: moments_noncollinear[OF sh2 ok2 selection_check_ok[OF that]]
        noncollinear_moments_Slice[OF sh2 vo2 assms(6,7)])
  have sel2: "sel \<in> {''spin'', ''total''} \<or> sel = ''orbital'' \<and> has_orbital_moments m2"
    using assms(8) ho by simp
  let ?x = "build [na, no, 3] (F1 sel)"
  let ?y = "build [length ps, na, no, 3] (F2 sel)"
  let ?x' = "build [na, no, 3] (F1 ''total'')"
  let ?y' = "build [length ps, na, no, 3] (F2 ''total'')"
  have e1: "\<forall>atom<na. \<forall>ob<no. \<forall>d<3.
            elem_at ?x [atom, ob, d] = selected_value m1 sel [p, Suc d, atom, ob]"
    by (simp add: elem_at_build3 F1_def)
  have e2: "\<forall>s<length ps. \<forall>atom<na. \<forall>ob<no. \<forall>d<3.
            elem_at ?y [s, atom, ob, d] = selected_value m2 sel [ps ! s, Suc d, atom, ob]"
    by (simp add: elem_at_build4 F2_def)
  from charges_ok[OF sh1 ok1] obtain c1 where c1: "charges m1 = Inr c1" by blast
  from charges_ok[OF sh2 ok2] obtain c2 where c2: "charges m2 = Inr c2" by blast
  define extra1 where "extra1 =
     (if has_orbital_moments m1
      then [(''spin_moments'', Some (build [na, no, 3] (F1 ''spin''))),
            (''orbital_moments'', Some (build [na, no, 3] (F1 ''orbital'')))]
      else [])"
  define extra2 where "extra2 =
     (if has_orbital_moments m1
      then [(''spin_moments'', Some (build [length ps, na, no, 3] (F2 ''spin''))),
            (''orbital_moments'', Some (build [length ps, na, no, 3] (F2 ''orbital'')))]
      else [])"
  have a1: "add_spin_and_orbital_moments m1 = Inr extra1"
    unfolding extra1_def F1_def selected_value_spin selected_value_orbital
    by (simp add: add_spin_and_orbital_Index[OF sh1 vo1 assms(4,5)])
  have a2: "add_spin_and_orbital_moments m2 = Inr extra2"
    unfolding extra2_def F2_def selected_value_spin selected_value_orbital
    by (simp add: add_spin_and_orbital_Slice[OF sh2 vo2 assms(6,7)] ho)
  let ?d1 = "[(''charges'', Some c1), (''moments'', Some ?x')] @ extra1"
  let ?d2 = "[(''charges'', Some c2), (''moments'', Some ?y')] @ extra2"
  have t1: "to_dict m1 = Inr ?d1" by (simp add: to_dict_def c1 M1 a1)
  have t2: "to_dict m2 = Inr ?d2" by (simp add: to_dict_def c2 M2 a2)
  have l1: "map_of ?d1 ''moments'' = Some (Some ?x')" by simp
  have l2: "map_of ?d2 ''moments'' = Some (Some ?y')" by simp
  have o: "has_orbital_moments m1 \<longrightarrow>
            Inr (map_of ?d1 ''spin_moments'') = map_sum id Some (moments m1 ''spin'')
          \<and> Inr (map_of ?d1 ''orbital_moments'') = map_sum id Some (moments m1 ''orbital'')
          \<and> Inr (map_of ?d2 ''spin_moments'') = map_sum id Some (moments m2 ''spin'')
          \<and> Inr (map_of ?d2 ''orbital_moments'') = map_sum id Some (moments m2 ''orbital'')"
    by (simp add: extra1_def extra2_def M1 M2 ho)
  have r: "ndim ?x' + 1 = ndim ?y'" "last (shape ?x') = 3" "last (shape ?y') = 3"
    "shape ?x = [na, no, 3]" "shape ?y = [length ps, na, no, 3]"
    "shape ?x' = [na, no, 3]" "shape ?y' = [length ps, na, no, 3]"
    by simp_all
  show ?thesis
    apply (rule exI[of _ ?x], rule exI[of _ ?y], rule exI[of _ ?d1], rule exI[of _ ?d2],
        rule exI[of _ ?x'], rule exI[of _ ?y'])
    apply (intro conjI)
    apply (rule M1[OF assms(8)] M2[OF sel2] r e1 e2 t1 t2 l1 l2 o)+
    done
qed

lemma sample_slice_facts:
  "raw_data sample_noncollinear_orbital_slice = raw_data sample_noncollinear_orbital"
  "shape (spin_moments (raw_data sample_noncollinear_orbital)) = [1, 4, 2, 2]"
  "steps sample_noncollinear_orbital = Index 0"
  "int_position 1 0 = Inr 0"
  "steps sample_noncollinear_orbital_slice = Slice None None None"
  by (simp_all add: sample_noncollinear_orbital_slice_def sample_noncollinear_orbital_def
      int_position_def)

lemma slice_all_of_one: "slice_positions None None None 1 = Inr [0]"
  by code_simp

theorem direction_axis_is_last_witness:
  "valid_raw (raw_data sample_noncollinear_orbital)
   \<and> steps sample_noncollinear_orbital = Index 0
   \<and> steps sample_noncollinear_orbital_slice = Slice None None None
   \<and> (\<exists>x y. moments sample_noncollinear_orbital ''total'' = Inr (Some x)
         \<and> moments sample_noncollinear_orbital_slice ''total'' = Inr (Some y)
         \<and> shape x = [2, 2, 3] \<and> shape y = [1, 2, 2, 3])
   \<and> (\<exists>d1 d2 x' y'. to_dict sample_noncollinear_orbital = Inr d1
         \<and> to_dict sample_noncollinear_orbital_slice = Inr d2
         \<and> map_of d1 ''moments'' = Some (Some x') \<and> map_of d2 ''moments'' = Some (Some y')
         \<and> ndim x' + 1 = ndim y' \<and> last (shape x') = 3 \<and> last (shape y') = 3)"
proof -
  have sel: "''total'' \<in> {''spin'', ''total''}
      \<or> ''total'' = ''orbital'' \<and> has_orbital_moments sample_noncollinear_orbital"
    by simp
  from direction_axis_is_last[OF sample_noncollinear_orbital_facts(1) sample_slice_facts(1,2,3,4,5)
      slice_all_of_one sel]
  obtain x y d1 d2 x' y' where
    "moments sample_noncollinear_orbital ''total'' = Inr (Some x)"
    "moments sample_noncollinear_orbital_slice ''total'' = Inr (Some y)"
    "shape x = [2, 2, 3]" "shape y = [length [0::nat], 2, 2, 3]"
    "to_dict sample_noncollinear_orbital = Inr d1"
    "to_dict sample_noncollinear_orbital_slice = Inr d2"
    "map_of d1 ''moments'' = Some (Some x')" "map_of d2 ''moments'' = Some (Some y')"
    "ndim x' + 1 = ndim y'" "last (shape x') = 3" "last (shape y') = 3"
    by blast
  then show ?thesis
    using sample_noncollinear_orbital_facts(1) sample_slice_facts(3,5) by auto
qed

lemma indices1: "indices [n] = map (\<lambda>i. [i]) [0..<n]"
proof -
  have "concat (map (\<lambda>i. [[i]]) [0..<n]) = map (\<lambda>i. [i]) [0..<n]"
    by (induction n) simp_all
  then show ?thesis by simp
qed

lemma collect_all_Inr: "collect (map (\<lambda>x. Inr (g x)) xs) = Inr (map g xs)"
  by (induction xs) simp_all

lemma moments_to_string_1d:
  "shape v = [n] \<Longrightarrow> moments_to_string v = Inr (join '' '' (map format_2f (elems v)))"
  by (simp add: moments_to_string_def ndim_def)

lemma moments_to_string_row:
  "moments_to_string (build [n] f) = Inr (join '' '' (map (\<lambda>j. format_2f (f [j])) [0..<n]))"
  by (simp add: moments_to_string_def build_def indices1 comp_def ndim_def)

lemma rows_2d:
  "shape v = [k, n] \<Longrightarrow>
   rows v = Inr (map (\<lambda>s. build [n] (\<lambda>idx. elem_at v (s # idx))) [0..<k])"
  by (simp add: rows_def ndim_def)

lemma to_str_2d:
  assumes "total_moments m ''total'' = Inr (Some v)" "shape v = [k, n]"
  shows "to_str m = Inr (''MAGMOM = '' @ join separator
           (map (\<lambda>s. join '' '' (map (\<lambda>j. format_2f (elem_at v [s, j])) [0..<n])) [0..<k]))"
proof -
  have nd: "ndim v \<noteq> 1" by (simp add: ndim_def assms(2))
  have c: "collect (map moments_to_string (map (\<lambda>s. build [n] (\<lambda>idx. elem_at v (s # idx))) [0..<k]))
      = Inr (map (\<lambda>s. join '' '' (map (\<lambda>j. format_2f (elem_at v [s, j])) [0..<n])) [0..<k])"
    by (simp add: comp_def moments_to_string_row collect_all_Inr)
  show ?thesis
    unfolding to_str_def assms(1) sum.case option.case rows_2d[OF assms(2)] c
    using nd by simp
qed

lemma format_example:
  "join '' '' (map format_2f [double_1_234, - double_0_005, 1 / 2]) = ''1.23 -0.01 0.50''"
  by code_simp

text \<open>
  Claim C9. The report renders \<open>total_moments\<close> of the selection total: the absent value
  gives "not spin polarized"; one vector gives "MAGMOM = " and its values with two
  decimals joined by a space (the doubles 1.234, -0.005 and 0.5 give
  "MAGMOM = 1.23 -0.01 0.50"); a result of two axes gives one such line per index of
  the first axis, the lines joined by a space, a backslash, a line break and nine spaces.
\<close>

theorem str_renders_total_moments:
  "(total_moments m ''total'' = Inr None \<longrightarrow> to_str m = Inr ''not spin polarized'')
   \<and> (\<forall>v n. total_moments m ''total'' = Inr (Some v) \<and> shape v = [n] \<longrightarrow>
         to_str m = Inr (''MAGMOM = '' @ join '' '' (map format_2f (elems v))))
   \<and> (\<forall>v k n. total_moments m ''total'' = Inr (Some v) \<and> shape v = [k, n] \<longrightarrow>
         to_str m = Inr (''MAGMOM = '' @ join ('' '' @ [CHR 0x5C, CHR 0x0A] @ ''         '')
           (map (\<lambda>s. join '' '' (map (\<lambda>j. format_2f (elem_at v [s, j])) [0..<n])) [0..<k])))
   \<and> ''MAGMOM = '' @ join '' '' (map format_2f [double_1_234, - double_0_005, 1 / 2])
         = ''MAGMOM = 1.23 -0.01 0.50''"
proof (intro conjI allI impI)
  assume "total_moments m ''total'' = Inr None"
  then show "to_str m = Inr ''not spin polarized''" by (simp add: to_str_def)
next
  fix v n assume "total_moments m ''total'' = Inr (Some v) \<and> shape v = [n]"
  then show "to_str m = Inr (''MAGMOM = '' @ join '' '' (map format_2f (elems v)))"
    by (simp add: to_str_def ndim_def moments_to_string_1d)
next
  fix v k n assume "total_moments m ''total'' = Inr (Some v) \<and> shape v = [k, n]"
  then show "to_str m = Inr (''MAGMOM = '' @ join ('' '' @ [CHR 0x5C, CHR 0x0A] @ ''         '')
           (map (\<lambda>s. join '' '' (map (\<lambda>j. format_2f (elem_at v [s, j])) [0..<n])) [0..<k]))"
    using to_str_2d[of m v k n] by (simp add: separator_def)
next
  show "''MAGMOM = '' @ join '' '' (map format_2f [double_1_234, - double_0_005, 1 / 2])
         = ''MAGMOM = 1.23 -0.01 0.50''"
    by (simp only: format_example) simp
qed

lemma sample_report_total:
  "total_moments sample_report ''total''
     = Inr (Some \<lparr>shape = [3], elems = [double_1_234, - double_0_005, 1 / 2]\<rparr>)"
  by code_simp

theorem str_renders_total_moments_witness:
  "total_moments sample_report ''total''
     = Inr (Some \<lparr>shape = [3], elems = [double_1_234, - double_0_005, 1 / 2]\<rparr>)
   \<and> to_str sample_report = Inr ''MAGMOM = 1.23 -0.01 0.50''"
proof -
  from str_renders_total_moments[of sample_report]
  have "to_str sample_report = Inr (''MAGMOM = '' @ join '' ''
          (map format_2f (elems \<lparr>shape = [3], elems = [double_1_234, - double_0_005, 1 / 2]\<rparr>)))"
    using sample_report_total by (metis ndarray.select_convs(1))
  then have "to_str sample_report = Inr (''MAGMOM = '' @ join '' ''
          (map format_2f [double_1_234, - double_0_005, 1 / 2]))"
    by (simp only: ndarray.select_convs)
  then have "to_str sample_report = Inr (''MAGMOM = '' @ ''1.23 -0.01 0.50'')"
    by (simp only: format_example)
  then have "to_str sample_report = Inr ''MAGMOM = 1.23 -0.01 0.50''" by simp
  then show ?thesis using sample_report_total by (intro conjI)
qed

lemma orbital_value_Some:
  "orbital_moments (raw_data m) = Some orb \<Longrightarrow> orbital_value m idx = elem_at orb idx"
  by (simp add: orbital_value_def)

lemma selected_value_total:
  "selected_value m ''total'' idx = spin_value m idx + orbital_value m idx"
  by (simp add: selected_value_def)

text \<open>
  Claim C1. For noncollinear data with orbital moments present and a selector that passes
  the step check, the three selections return arrays of one shape. The spin selection
  holds the components 1 to 3 of \<open>spin_moments\<close> for the selected steps, the orbital
  selection the same components of \<open>orbital_moments\<close>, each with the direction as last
  axis, and the total selection is their elementwise sum.
\<close>

theorem moments_total_is_spin_plus_orbital:
  fixes m :: "'a::{zero,plus} magnetism"
  assumes "valid_raw (raw_data m)"
      and "shape (spin_moments (raw_data m)) = [ns, 4, na, no]"
      and "orbital_moments (raw_data m) = Some orb"
      and "raise_error_if_steps_out_of_bounds m = Inr ()"
  shows "\<exists>s ob t. moments m ''spin'' = Inr (Some s)
       \<and> moments m ''orbital'' = Inr (Some ob)
       \<and> moments m ''total'' = Inr (Some t)
       \<and> shape ob = shape s \<and> shape t = shape s
       \<and> np_add s ob = Inr t
       \<and> elems t = map2 (+) (elems s) (elems ob)
       \<and> (\<forall>i p. steps m = Index i \<and> int_position ns i = Inr p \<longrightarrow>
             shape s = [na, no, 3]
             \<and> (\<forall>atom<na. \<forall>orbital<no. \<forall>d<3.
                   elem_at s [atom, orbital, d]
                     = elem_at (spin_moments (raw_data m)) [p, Suc d, atom, orbital]
                 \<and> elem_at ob [atom, orbital, d] = elem_at orb [p, Suc d, atom, orbital]
                 \<and> elem_at t [atom, orbital, d]
                     = elem_at (spin_moments (raw_data m)) [p, Suc d, atom, orbital]
                       + elem_at orb [p, Suc d, atom, orbital]))
       \<and> (\<forall>a b c ps. steps m = Slice a b c \<and> slice_positions a b c ns = Inr ps \<longrightarrow>
             shape s = [length ps, na, no, 3]
             \<and> (\<forall>j<length ps. \<forall>atom<na. \<forall>orbital<no. \<forall>d<3.
                   elem_at s [j, atom, orbital, d]
                     = elem_at (spin_moments (raw_data m)) [ps ! j, Suc d, atom, orbital]
                 \<and> elem_at ob [j, atom, orbital, d] = elem_at orb [ps ! j, Suc d, atom, orbital]
                 \<and> elem_at t [j, atom, orbital, d]
                     = elem_at (spin_moments (raw_data m)) [ps ! j, Suc d, atom, orbital]
                       + elem_at orb [ps ! j, Suc d, atom, orbital]))"
proof -
  note sh = assms(2)
  have vo: "\<And>orb. orbital_moments (raw_data m) = Some orb \<Longrightarrow> shape orb = [ns, 4, na, no]"
    using valid_raw_orbital[OF assms(1)] sh by simp
  have ho: "has_orbital_moments m" by (simp add: has_orbital_moments_def assms(3))
  have sel: "raise_error_if_selection_not_available m s = Inr ()"
    if "s \<in> {''spin'', ''orbital'', ''total''}" for s
    using that ho by (auto intro: selection_check_ok)
  note ov = orbital_value_Some[OF assms(3)]
  from sh assms(4) show ?thesis
  proof (cases rule: steps_ok_cases)
    case (Index i p)
    define F where "F = (\<lambda>s idx. selected_value m s [p, Suc (idx ! 2), idx ! 0, idx ! 1])"
    have M: "moments m s = Inr (Some (build [na, no, 3] (F s)))"
      if "s \<in> {''spin'', ''orbital'', ''total''}" for s
      unfolding F_def
      by (simp add: moments_noncollinear[OF sh assms(4) sel[OF that]]
          noncollinear_moments_Index[OF sh vo Index])
    let ?S = "build [na, no, 3] (F ''spin'')"
    let ?O = "build [na, no, 3] (F ''orbital'')"
    let ?T = "build [na, no, 3] (F ''total'')"
    have T: "?T = build [na, no, 3] (\<lambda>idx. F ''spin'' idx + F ''orbital'' idx)"
      by (simp add: F_def selected_value_def)
    have 4: "np_add ?S ?O = Inr ?T" unfolding T by (rule np_add_build)
    have 5: "elems ?T = map2 (+) (elems ?S) (elems ?O)"
      unfolding T by (simp add: build_def map_plus_map2)
    have 6: "\<forall>i' p'. steps m = Index i' \<and> int_position ns i' = Inr p' \<longrightarrow>
             shape ?S = [na, no, 3]
             \<and> (\<forall>atom<na. \<forall>orbital<no. \<forall>d<3.
                   elem_at ?S [atom, orbital, d]
                     = elem_at (spin_moments (raw_data m)) [p', Suc d, atom, orbital]
                 \<and> elem_at ?O [atom, orbital, d] = elem_at orb [p', Suc d, atom, orbital]
                 \<and> elem_at ?T [atom, orbital, d]
                     = elem_at (spin_moments (raw_data m)) [p', Suc d, atom, orbital]
                       + elem_at orb [p', Suc d, atom, orbital])"
    proof (intro allI impI)
      fix i' p' assume h: "steps m = Index i' \<and> int_position ns i' = Inr p'"
      with Index have p': "p' = p" by simp
      show "shape ?S = [na, no, 3]
             \<and> (\<forall>atom<na. \<forall>orbital<no. \<forall>d<3.
                   elem_at ?S [atom, orbital, d]
                     = elem_at (spin_moments (raw_data m)) [p', Suc d, atom, orbital]
                 \<and> elem_at ?O [atom, orbital, d] = elem_at orb [p', Suc d, atom, orbital]
                 \<and> elem_at ?T [atom, orbital, d]
                     = elem_at (spin_moments (raw_data m)) [p', Suc d, atom, orbital]
                       + elem_at orb [p', Suc d, atom, orbital])"
        unfolding p'
        by (simp add: elem_at_build3 F_def selected_value_spin selected_value_orbital
            selected_value_total ov spin_value_def)
    qed
    have 7: "\<forall>a b c ps. steps m = Slice a b c \<and> slice_positions a b c ns = Inr ps \<longrightarrow>
             shape ?S = [length ps, na, no, 3]
             \<and> (\<forall>j<length ps. \<forall>atom<na. \<forall>orbital<no. \<forall>d<3.
                   elem_at ?S [j, atom, orbital, d]
                     = elem_at (spin_moments (raw_data m)) [ps ! j, Suc d, atom, orbital]
                 \<and> elem_at ?O [j, atom, orbital, d] = elem_at orb [ps ! j, Suc d, atom, orbital]
                 \<and> elem_at ?T [j, atom, orbital, d]
                     = elem_at (spin_moments (raw_data m)) [ps ! j, Suc d, atom, orbital]
                       + elem_at orb [ps ! j, Suc d, atom, orbital])"
      using Index(1) by simp
    show ?thesis
      apply (rule exI[of _ ?S], rule exI[of _ ?O], rule exI[of _ ?T])
      apply (intro conjI)
              apply (rule M, simp)
             apply (rule M, simp)
            apply (rule M, simp)
           apply simp
          apply simp
         apply (rule 4)
        apply (rule 5)
       apply (rule 6)
      apply (rule 7)
      done
  next
    case (Slice a b c ps)
    define F where "F = (\<lambda>s idx. selected_value m s [ps ! (idx ! 0), Suc (idx ! 3), idx ! 1, idx ! 2])"
    have M: "moments m s = Inr (Some (build [length ps, na, no, 3] (F s)))"
      if "s \<in> {''spin'', ''orbital'', ''total''}" for s
      unfolding F_def
      by (simp add: moments_noncollinear[OF sh assms(4) sel[OF that]]
          noncollinear_moments_Slice[OF sh vo Slice])
    let ?S = "build [length ps, na, no, 3] (F ''spin'')"
    let ?O = "build [length ps, na, no, 3] (F ''orbital'')"
    let ?T = "build [length ps, na, no, 3] (F ''total'')"
    have T: "?T = build [length ps, na, no, 3] (\<lambda>idx. F ''spin'' idx + F ''orbital'' idx)"
      by (simp add: F_def selected_value_def)
    have 4: "np_add ?S ?O = Inr ?T" unfolding T by (rule np_add_build)
    have 5: "elems ?T = map2 (+) (elems ?S) (elems ?O)"
      unfolding T by (simp add: build_def map_plus_map2)
    have 6: "\<forall>i p. steps m = Index i \<and> int_position ns i = Inr p \<longrightarrow>
             shape ?S = [na, no, 3]
             \<and> (\<forall>atom<na. \<forall>orbital<no. \<forall>d<3.
                   elem_at ?S [atom, orbital, d]
                     = elem_at (spin_moments (raw_data m)) [p, Suc d, atom, orbital]
                 \<and> elem_at ?O [atom, orbital, d] = elem_at orb [p, Suc d, atom, orbital]
                 \<and> elem_at ?T [atom, orbital, d]
                     = elem_at (spin_moments (raw_data m)) [p, Suc d, atom, orbital]
                       + elem_at orb [p, Suc d, atom, orbital])"
      using Slice(1) by simp
    have 7: "\<forall>a' b' c' ps'. steps m = Slice a' b' c' \<and> slice_positions a' b' c' ns = Inr ps' \<longrightarrow>
             shape ?S = [length ps', na, no, 3]
             \<and> (\<forall>j<length ps'. \<forall>atom<na. \<forall>orbital<no. \<forall>d<3.
                   elem_at ?S [j, atom, orbital, d]
                     = elem_at (spin_moments (raw_data m)) [ps' ! j, Suc d, atom, orbital]
                 \<and> elem_at ?O [j, atom, orbital, d] = elem_at orb [ps' ! j, Suc d, atom, orbital]
                 \<and> elem_at ?T [j, atom, orbital, d]
                     = elem_at (spin_moments (raw_data m)) [ps' ! j, Suc d, atom, orbital]
                       + elem_at orb [ps' ! j, Suc d, atom, orbital])"
    proof (intro allI impI)
      fix a' b' c' ps'
      assume h: "steps m = Slice a' b' c' \<and> slice_positions a' b' c' ns = Inr ps'"
      with Slice have p': "ps' = ps" by simp
      show "shape ?S = [length ps', na, no, 3]
             \<and> (\<forall>j<length ps'. \<forall>atom<na. \<forall>orbital<no. \<forall>d<3.
                   elem_at ?S [j, atom, orbital, d]
                     = elem_at (spin_moments (raw_data m)) [ps' ! j, Suc d, atom, orbital]
                 \<and> elem_at ?O [j, atom, orbital, d] = elem_at orb [ps' ! j, Suc d, atom, orbital]
                 \<and> elem_at ?T [j, atom, orbital, d]
                     = elem_at (spin_moments (raw_data m)) [ps' ! j, Suc d, atom, orbital]
                       + elem_at orb [ps' ! j, Suc d, atom, orbital])"
        unfolding p'
        by (simp add: elem_at_build4 F_def selected_value_spin selected_value_orbital
            selected_value_total ov spin_value_def)
    qed
    show ?thesis
      apply (rule exI[of _ ?S], rule exI[of _ ?O], rule exI[of _ ?T])
      apply (intro conjI)
              apply (rule M, simp)
             apply (rule M, simp)
            apply (rule M, simp)
           apply simp
          apply simp
         apply (rule 4)
        apply (rule 5)
       apply (rule 6)
      apply (rule 7)
      done
  qed
qed

lemma sample_noncollinear_orbital_more:
  "shape (spin_moments (raw_data sample_noncollinear_orbital)) = [1, 4, 2, 2]"
  "orbital_moments (raw_data sample_noncollinear_orbital)
     = Some \<lparr>shape = [1, 4, 2, 2],
            elems = [0, 0, 0, 0, 100, 200, 300, 400, 500, 600, 700, 800, 900, 1000, 1100, 1200]\<rparr>"
  "steps sample_noncollinear_orbital = Index 0"
  by (simp_all add: sample_noncollinear_orbital_def)

theorem moments_total_is_spin_plus_orbital_witness:
  "valid_raw (raw_data sample_noncollinear_orbital)
   \<and> shape (spin_moments (raw_data sample_noncollinear_orbital)) = [1, 4, 2, 2]
   \<and> raise_error_if_steps_out_of_bounds sample_noncollinear_orbital = Inr ()
   \<and> (\<exists>s ob t. moments sample_noncollinear_orbital ''spin'' = Inr (Some s)
       \<and> moments sample_noncollinear_orbital ''orbital'' = Inr (Some ob)
       \<and> moments sample_noncollinear_orbital ''total'' = Inr (Some t)
       \<and> shape s = [2, 2, 3] \<and> shape ob = shape s \<and> shape t = shape s
       \<and> np_add s ob = Inr t
       \<and> elem_at s [1, 0, 2] = 15 \<and> elem_at ob [1, 0, 2] = 1100 \<and> elem_at t [1, 0, 2] = 1115)"
proof -
  let ?m = sample_noncollinear_orbital
  let ?orb = "\<lparr>shape = [1, 4, 2, 2],
            elems = [0, 0, 0, 0, 100, 200, 300, 400, 500, 600, 700, 800, 900, 1000, 1100, 1200 :: int]\<rparr>"
  from moments_total_is_spin_plus_orbital[OF sample_noncollinear_orbital_facts(1)
      sample_noncollinear_orbital_more(1,2) sample_noncollinear_orbital_facts(4)]
  obtain s ob t where r:
    "moments ?m ''spin'' = Inr (Some s)" "moments ?m ''orbital'' = Inr (Some ob)"
    "moments ?m ''total'' = Inr (Some t)" "shape ob = shape s" "shape t = shape s"
    "np_add s ob = Inr t"
    and ix: "\<forall>i p. steps ?m = Index i \<and> int_position 1 i = Inr p \<longrightarrow>
             shape s = [2, 2, 3]
             \<and> (\<forall>atom<2. \<forall>orbital<2. \<forall>d<3.
                   elem_at s [atom, orbital, d]
                     = elem_at (spin_moments (raw_data ?m)) [p, Suc d, atom, orbital]
                 \<and> elem_at ob [atom, orbital, d] = elem_at ?orb [p, Suc d, atom, orbital]
                 \<and> elem_at t [atom, orbital, d]
                     = elem_at (spin_moments (raw_data ?m)) [p, Suc d, atom, orbital]
                       + elem_at ?orb [p, Suc d, atom, orbital])"
    by blast
  have pos: "int_position 1 0 = Inr 0" by (simp add: int_position_def)
  from ix sample_noncollinear_orbital_more(3) pos
  have sh: "shape s = [2, 2, 3]"
    and el: "\<forall>atom<2. \<forall>orbital<2. \<forall>d<3.
                   elem_at s [atom, orbital, d]
                     = elem_at (spin_moments (raw_data ?m)) [0, Suc d, atom, orbital]
                 \<and> elem_at ob [atom, orbital, d] = elem_at ?orb [0, Suc d, atom, orbital]
                 \<and> elem_at t [atom, orbital, d]
                     = elem_at (spin_moments (raw_data ?m)) [0, Suc d, atom, orbital]
                       + elem_at ?orb [0, Suc d, atom, orbital]"
    by blast+
  have v1: "elem_at (spin_moments (raw_data ?m)) [0, Suc 2, 1, 0] = 15"
    by (simp add: sample_noncollinear_orbital_def elem_at_def)
  have v2: "elem_at ?orb [0, Suc 2, 1, 0] = 1100"
    by (simp add: elem_at_def)
  from el have e: "elem_at s [1, 0, 2] = elem_at (spin_moments (raw_data ?m)) [0, Suc 2, 1, 0]
      \<and> elem_at ob [1, 0, 2] = elem_at ?orb [0, Suc 2, 1, 0]
      \<and> elem_at t [1, 0, 2] = elem_at (spin_moments (raw_data ?m)) [0, Suc 2, 1, 0]
                       + elem_at ?orb [0, Suc 2, 1, 0]"
    by simp
  have "elem_at s [1, 0, 2] = 15" "elem_at ob [1, 0, 2] = 1100" "elem_at t [1, 0, 2] = 1115"
    using e v1 v2 by simp_all
  then show ?thesis
    using r sh sample_noncollinear_orbital_facts(1,4) sample_noncollinear_orbital_more(1)
    by blast
qed

end
